theory Spec2Isabelle
  imports Complex_Main "HOL-Library.Multiset"
begin

section \<open>Python and torch values\<close>

text \<open>
  The module \<^verbatim>\<open>ww4ff/data/transform/base.py\<close> works on torch tensors. A tensor is its
  shape together with its entries in row-major order; a zero-dimensional tensor has the
  empty shape. Exceptions are values: every function of the module that can raise returns
  \<open>error + 'a\<close>.
\<close>

datatype error = IndexError | ValueError | RuntimeError

datatype 'a tensor = Tensor (shape: "nat list") (elems: "'a list")

definition ebind :: "error + 'a \<Rightarrow> ('a \<Rightarrow> error + 'b) \<Rightarrow> error + 'b" where
  "ebind m f = (case m of Inl e \<Rightarrow> Inl e | Inr v \<Rightarrow> f v)"

text \<open>A list comprehension whose body may raise: the first failing element raises.\<close>

fun emap :: "('a \<Rightarrow> error + 'b) \<Rightarrow> 'a list \<Rightarrow> error + 'b list" where
  "emap f [] = Inr []"
| "emap f (x # xs) = ebind (f x) (\<lambda>y. ebind (emap f xs) (\<lambda>ys. Inr (y # ys)))"

definition numel :: "'a tensor \<Rightarrow> nat" where
  "numel t = prod_list (shape t)"

text \<open>The invariant of a tensor value: it holds as many entries as its shape says.\<close>

definition wf_tensor :: "'a tensor \<Rightarrow> bool" where
  "wf_tensor t = (length (elems t) = numel t)"

text \<open>\<^verbatim>\<open>t.size(-1)\<close> and \<^verbatim>\<open>t.size()[-1]\<close>: both raise IndexError on a zero-dimensional tensor.\<close>

definition size_last :: "'a tensor \<Rightarrow> error + nat" where
  "size_last t = (case shape t of [] \<Rightarrow> Inl IndexError | d # ds \<Rightarrow> Inr (last (d # ds)))"

text \<open>\<^verbatim>\<open>torch.tensor([...])\<close> of a list of numbers.\<close>

definition tensor_of_list :: "'a list \<Rightarrow> 'a tensor" where
  "tensor_of_list xs = Tensor [length xs] xs"

text \<open>\<^verbatim>\<open>torch.zeros(k)\<close>; a negative size raises.\<close>

definition zeros :: "int \<Rightarrow> error + real tensor" where
  "zeros k = (if k < 0 then Inl RuntimeError else Inr (Tensor [nat k] (replicate (nat k) 0)))"

text \<open>\<^verbatim>\<open>t.squeeze()\<close> drops every dimension of size one; the entries stay as they are.\<close>

definition squeeze :: "'a tensor \<Rightarrow> 'a tensor" where
  "squeeze t = Tensor (filter (\<lambda>d. d \<noteq> 1) (shape t)) (elems t)"

text \<open>The rows of a tensor along its last dimension.\<close>

definition rows :: "'a tensor \<Rightarrow> 'a list list" where
  "rows t = (let n = last (shape t)
             in map (\<lambda>i. take n (drop (i * n) (elems t))) [0..<prod_list (butlast (shape t))])"

text \<open>
  \<^verbatim>\<open>torch.cat((a, b), -1)\<close>. A zero-dimensional tensor cannot be concatenated; a tensor of
  shape \<open>[0]\<close> is skipped; the others must agree in every dimension but the last.
\<close>

definition cat_last :: "'a tensor \<Rightarrow> 'a tensor \<Rightarrow> error + 'a tensor" where
  "cat_last a b =
    (if shape a = [] \<or> shape b = [] then Inl RuntimeError
     else if shape b = [0] then Inr a
     else if shape a = [0] then Inr b
     else if butlast (shape a) = butlast (shape b)
       then Inr (Tensor (butlast (shape a) @ [last (shape a) + last (shape b)])
                   (concat (map2 (@) (rows a) (rows b))))
     else Inl RuntimeError)"

text \<open>
  \<^verbatim>\<open>torch.stack(ts, d)\<close> for \<open>d \<ge> 0\<close>: the list is not empty, all shapes are equal, and the new
  axis of size \<open>len(ts)\<close> is inserted at position \<open>d\<close>.
\<close>

definition stack :: "'a tensor list \<Rightarrow> nat \<Rightarrow> error + 'a tensor" where
  "stack ts d =
    (case ts of
       [] \<Rightarrow> Inl RuntimeError
     | t # _ \<Rightarrow>
         if \<not> list_all (\<lambda>u. shape u = shape t) ts then Inl RuntimeError
         else if length (shape t) < d then Inl IndexError
         else
           let inner = prod_list (drop d (shape t)); outer = prod_list (take d (shape t))
           in Inr (Tensor (take d (shape t) @ length ts # drop d (shape t))
                    (concat (map (\<lambda>out. concat (map (\<lambda>u. take inner (drop (out * inner) (elems u))) ts))
                                 [0..<outer]))))"

text \<open>\<^verbatim>\<open>max(...)\<close> over a generator: ValueError when it yields nothing.\<close>

definition py_max :: "nat list \<Rightarrow> error + nat" where
  "py_max xs = (case xs of [] \<Rightarrow> Inl ValueError | y # ys \<Rightarrow> Inr (fold max ys y))"

text \<open>
  \<^verbatim>\<open>sorted(xs, key=key, reverse=True)\<close>: the keys are computed first, in order (the first
  failing key raises); the sort is stable, and \<^verbatim>\<open>reverse=True\<close> keeps the input order of
  elements with equal keys. For numeric keys this is the stable ascending sort by the
  negated key.
\<close>

definition sorted_reverse :: "('a \<Rightarrow> error + nat) \<Rightarrow> 'a list \<Rightarrow> error + 'a list" where
  "sorted_reverse key xs =
     ebind (emap key xs) (\<lambda>ks. Inr (map snd (sort_key (\<lambda>p. - int (fst p)) (zip ks xs))))"

section \<open>The data model\<close>

text \<open>
  Modelled from the spec: the classes \<^verbatim>\<open>WakeWordClipExample\<close> and \<^verbatim>\<open>ClassificationBatch\<close>
  of \<^verbatim>\<open>ww4ff.data.dataset\<close> are imported by the module and are not among the sources. An
  example carries its waveform, its label and metadata the transforms ignore; a batch
  carries the padded audio, the labels and the unpadded lengths.
\<close>

record 'm WakeWordClipExample =
  metadata :: 'm
  audio_data :: "real tensor"
  contains_wake_word :: bool

record ClassificationBatch =
  audio_tensor :: "real tensor"
  labels_tensor :: "int tensor"
  lengths_tensor :: "nat tensor"

text \<open>
  Modelled from the spec: \<^verbatim>\<open>emplaced_audio_data\<close> is the non-mutating replace operation of
  an example; it returns a new example that shares all other fields.
\<close>

definition emplaced_audio_data ::
  "'m WakeWordClipExample \<Rightarrow> real tensor \<Rightarrow> 'm WakeWordClipExample" where
  "emplaced_audio_data ex d = ex\<lparr>audio_data := d\<rparr>"

section \<open>batchify\<close>

text \<open>
  \<^verbatim>\<open>
  def batchify(examples):
      examples = sorted(examples, key=lambda x: x.audio_data.size()[-1], reverse=True)
      lengths = torch.tensor([ex.audio_data.size(-1) for ex in examples])
      max_length = max(ex.audio_data.size(-1) for ex in examples)
      audio_tensor = [torch.cat((ex.audio_data.squeeze(),
                                 torch.zeros(max_length - ex.audio_data.size(-1))), -1)
                      for ex in examples]
      audio_tensor = torch.stack(audio_tensor)
      labels_tensor = torch.tensor([int(ex.contains_wake_word) for ex in examples])
      return ClassificationBatch(audio_tensor, labels_tensor, lengths)
  \<close>
\<close>

definition pad_example :: "nat \<Rightarrow> 'm WakeWordClipExample \<Rightarrow> error + real tensor" where
  "pad_example max_length ex =
     ebind (size_last (audio_data ex)) (\<lambda>n.
     ebind (zeros (int max_length - int n)) (\<lambda>z.
       cat_last (squeeze (audio_data ex)) z))"

definition batchify :: "'m WakeWordClipExample list \<Rightarrow> error + ClassificationBatch" where
  "batchify examples =
     ebind (sorted_reverse (\<lambda>x. size_last (audio_data x)) examples) (\<lambda>examples.
     ebind (emap (\<lambda>ex. size_last (audio_data ex)) examples) (\<lambda>lengths.
     ebind (ebind (emap (\<lambda>ex. size_last (audio_data ex)) examples) py_max) (\<lambda>max_length.
     ebind (emap (pad_example max_length) examples) (\<lambda>padded.
     ebind (stack padded 0) (\<lambda>audio.
       Inr \<lparr>audio_tensor = audio,
            labels_tensor = tensor_of_list (map (\<lambda>ex. if contains_wake_word ex then 1 else 0) examples),
            lengths_tensor = tensor_of_list lengths\<rparr>)))))"

text \<open>
  The sample count of an example: the size of the last dimension of its waveform, which
  is what \<^verbatim>\<open>ex.audio_data.size(-1)\<close> returns whenever the waveform has a dimension.
\<close>

definition sample_count :: "'m WakeWordClipExample \<Rightarrow> nat" where
  "sample_count ex = last (shape (audio_data ex))"

text \<open>The batch assembled from the sorted examples and the stacked audio.\<close>

definition batch_of ::
  "'m WakeWordClipExample list \<Rightarrow> real tensor \<Rightarrow> ClassificationBatch" where
  "batch_of ys audio =
     \<lparr>audio_tensor = audio,
      labels_tensor = tensor_of_list (map (\<lambda>ex. if contains_wake_word ex then 1 else 0) ys),
      lengths_tensor = tensor_of_list (map sample_count ys)\<rparr>"

text \<open>A concrete example without metadata, for the evaluations below.\<close>

definition clip :: "nat list \<Rightarrow> real list \<Rightarrow> bool \<Rightarrow> unit WakeWordClipExample" where
  "clip sh xs l = \<lparr>metadata = (), audio_data = Tensor sh xs, contains_wake_word = l\<rparr>"

section \<open>random_slice\<close>

text \<open>
  A bound of a Python slice on a dimension of size \<open>n\<close>: a negative bound counts from the
  end, and the result is clamped to \<open>0..n\<close>.
\<close>

definition norm_index :: "int \<Rightarrow> nat \<Rightarrow> nat" where
  "norm_index i n = (if i < 0 then nat (max 0 (i + int n)) else min (nat i) n)"

text \<open>\<^verbatim>\<open>t[..., a:b]\<close>: the slice \<open>a:b\<close> of every row along the last dimension.\<close>

definition slice_last :: "int \<Rightarrow> int \<Rightarrow> 'a tensor \<Rightarrow> error + 'a tensor" where
  "slice_last a b t =
     (case shape t of
        [] \<Rightarrow> Inl IndexError
      | d # ds \<Rightarrow>
          let n = last (d # ds); lo = norm_index a n; hi = norm_index b n
          in Inr (Tensor (butlast (d # ds) @ [hi - lo])
                   (concat (map (\<lambda>r. take (hi - lo) (drop lo r)) (rows t)))))"

text \<open>
  \<^verbatim>\<open>random.randint(lo, hi)\<close> reads and advances the shared generator. The generator is a
  parameter \<open>rnd\<close> of the model, threaded through the calls as the state \<open>g\<close>; Python
  raises ValueError on an empty range.
\<close>

definition randint :: "(int \<Rightarrow> int \<Rightarrow> 'g \<Rightarrow> int \<times> 'g) \<Rightarrow> int \<Rightarrow> int \<Rightarrow> 'g \<Rightarrow> error + int \<times> 'g" where
  "randint rnd lo hi g = (if hi < lo then Inl ValueError else Inr (rnd lo hi g))"

text \<open>
  \<^verbatim>\<open>
  def random_slice(examples, max_window_size=16000):
      new_examples = []
      for ex in examples:
          if ex.audio_data.size(-1) < max_window_size:
              new_examples.append(ex)
              continue
          a = random.randint(0, ex.audio_data.size(-1) - max_window_size)
          new_examples.append(ex.emplaced_audio_data(ex.audio_data[..., a:a + max_window_size]))
      return new_examples
  \<close>
\<close>

fun random_slice ::
  "(int \<Rightarrow> int \<Rightarrow> 'g \<Rightarrow> int \<times> 'g) \<Rightarrow> 'm WakeWordClipExample list \<Rightarrow> int \<Rightarrow> 'g
    \<Rightarrow> error + 'm WakeWordClipExample list \<times> 'g" where
  "random_slice rnd [] max_window_size g = Inr ([], g)"
| "random_slice rnd (ex # examples) max_window_size g =
     ebind (size_last (audio_data ex)) (\<lambda>n.
       if int n < max_window_size
       then ebind (random_slice rnd examples max_window_size g)
              (\<lambda>(new_examples, g'). Inr (ex # new_examples, g'))
       else
         ebind (randint rnd 0 (int n - max_window_size) g) (\<lambda>(a, g1).
         ebind (slice_last a (a + max_window_size) (audio_data ex)) (\<lambda>d.
         ebind (random_slice rnd examples max_window_size g1)
           (\<lambda>(new_examples, g'). Inr (emplaced_audio_data ex d # new_examples, g')))))"

text \<open>
  The relation between an input example and its output under the window \<open>w\<close>: the other
  fields are shared; a clip of at most \<open>w\<close> samples keeps its audio; a longer clip keeps,
  of every row, the \<open>w\<close> samples from an offset \<open>a\<close> that the generator returned for the
  inclusive range from \<open>0\<close> to the sample count minus \<open>w\<close>.
\<close>

definition window_of ::
  "(int \<Rightarrow> int \<Rightarrow> 'g \<Rightarrow> int \<times> 'g) \<Rightarrow> int \<Rightarrow> 'm WakeWordClipExample \<Rightarrow> 'm WakeWordClipExample \<Rightarrow> bool" where
  "window_of rnd w ex ex' =
     (metadata ex' = metadata ex \<and> contains_wake_word ex' = contains_wake_word ex \<and>
      (if int (sample_count ex) \<le> w then audio_data ex' = audio_data ex
       else \<exists>g. let a = fst (rnd 0 (int (sample_count ex) - w) g) in
              0 \<le> a \<and> a \<le> int (sample_count ex) - w
              \<and> shape (audio_data ex') = butlast (shape (audio_data ex)) @ [nat w]
              \<and> rows (audio_data ex') = map (\<lambda>r. take (nat w) (drop (nat a) r)) (rows (audio_data ex))
              \<and> list_all (\<lambda>r. length r = nat w) (rows (audio_data ex'))))"

text \<open>A deterministic generator for the evaluations below: it walks through the range.\<close>

definition counter_source :: "int \<Rightarrow> int \<Rightarrow> nat \<Rightarrow> int \<times> nat" where
  "counter_source lo hi g = (lo + int (g mod nat (hi - lo + 1)), Suc g)"

section \<open>compose\<close>

text \<open>
  A stage of a pipeline is a plain callable or an \<^verbatim>\<open>nn.Module\<close> with parameters. Calling a
  stage takes the argument list and the state of the world (the shared random generator,
  the buffers of stateful modules) and returns a value or raises, with the state as the
  call left it.
\<close>

datatype ('v, 's, 'p) stage =
    Function "'v list \<Rightarrow> 's \<Rightarrow> (error + 'v) \<times> 's"
  | Module "'p list" "'v list \<Rightarrow> 's \<Rightarrow> (error + 'v) \<times> 's"

fun call :: "('v, 's, 'p) stage \<Rightarrow> 'v list \<Rightarrow> 's \<Rightarrow> (error + 'v) \<times> 's" where
  "call (Function f) args s = f args s"
| "call (Module ps f) args s = f args s"

text \<open>\<^verbatim>\<open>isinstance(x, nn.Module)\<close>, and the parameters a stage owns.\<close>

fun is_module :: "('v, 's, 'p) stage \<Rightarrow> bool" where
  "is_module (Function f) = False"
| "is_module (Module ps f) = True"

fun stage_parameters :: "('v, 's, 'p) stage \<Rightarrow> 'p list" where
  "stage_parameters (Function f) = []"
| "stage_parameters (Module ps f) = ps"

text \<open>Sequencing of calls that may raise: an exception ends the sequence.\<close>

definition sbind ::
  "(error + 'a) \<times> 's \<Rightarrow> ('a \<Rightarrow> 's \<Rightarrow> (error + 'b) \<times> 's) \<Rightarrow> (error + 'b) \<times> 's" where
  "sbind m f = (case fst m of Inl e \<Rightarrow> (Inl e, snd m) | Inr v \<Rightarrow> f v (snd m))"

text \<open>
  \<^verbatim>\<open>
  class Composition(nn.Module):
      def __init__(self, modules):
          super().__init__()
          self.modules = modules
          self._module_list = nn.ModuleList(list(filter(lambda x: isinstance(x, nn.Module), modules)))

      def forward(self, *args):
          for mod in self.modules:
              args = mod(*args)
              args = (args,)
          return args[0]

  def compose(*collate_modules):
      return Composition(collate_modules)
  \<close>
  The parameters of the composition are those of the modules registered in
  \<^verbatim>\<open>_module_list\<close>, each counted once.
\<close>

record ('v, 's, 'p) Composition =
  modules :: "('v, 's, 'p) stage list"
  module_list :: "('v, 's, 'p) stage list"

definition Composition_init :: "('v, 's, 'p) stage list \<Rightarrow> ('v, 's, 'p) Composition" where
  "Composition_init ms = \<lparr>modules = ms, module_list = filter is_module ms\<rparr>"

fun forward_loop ::
  "('v, 's, 'p) stage list \<Rightarrow> 'v list \<Rightarrow> 's \<Rightarrow> (error + 'v list) \<times> 's" where
  "forward_loop [] args s = (Inr args, s)"
| "forward_loop (m # ms) args s = sbind (call m args s) (\<lambda>r s'. forward_loop ms [r] s')"

definition Composition_forward ::
  "('v, 's, 'p) Composition \<Rightarrow> 'v list \<Rightarrow> 's \<Rightarrow> (error + 'v) \<times> 's" where
  "Composition_forward c args s =
     sbind (forward_loop (modules c) args s)
       (\<lambda>args s'. case args of [] \<Rightarrow> (Inl IndexError, s') | r # _ \<Rightarrow> (Inr r, s'))"

definition compose :: "('v, 's, 'p) stage list \<Rightarrow> ('v, 's, 'p) Composition" where
  "compose collate_modules = Composition_init collate_modules"

definition Composition_parameters :: "('v, 's, 'p) Composition \<Rightarrow> 'p list" where
  "Composition_parameters c = remdups (concat (map stage_parameters (module_list c)))"

section \<open>ZmuvTransform\<close>

text \<open>
  \<^verbatim>\<open>data * mask\<close> multiplies entry by entry after broadcasting: the shapes are aligned at
  the last dimension, a missing dimension or a dimension of size one is stretched to the
  other tensor's size, and any other mismatch raises.
\<close>

fun broadcast_shape_rev :: "nat list \<Rightarrow> nat list \<Rightarrow> error + nat list" where
  "broadcast_shape_rev [] ys = Inr ys"
| "broadcast_shape_rev xs [] = Inr xs"
| "broadcast_shape_rev (x # xs) (y # ys) =
     ebind (broadcast_shape_rev xs ys) (\<lambda>r.
       if x = y then Inr (x # r)
       else if x = 1 then Inr (y # r)
       else if y = 1 then Inr (x # r)
       else Inl RuntimeError)"

definition broadcast_shape :: "nat list \<Rightarrow> nat list \<Rightarrow> error + nat list" where
  "broadcast_shape a b = ebind (broadcast_shape_rev (rev a) (rev b)) (\<lambda>r. Inr (rev r))"

text \<open>
  The entries of a tensor whose shape \<open>ds\<close> (already filled up with leading ones) is
  stretched to the shape \<open>es\<close>.
\<close>

fun expand :: "nat list \<Rightarrow> nat list \<Rightarrow> 'a list \<Rightarrow> 'a list" where
  "expand (d # ds) (e # es) xs =
     (if d = e
      then concat (map (\<lambda>i. expand ds es (take (prod_list ds) (drop (i * prod_list ds) xs))) [0..<d])
      else concat (replicate e (expand ds es xs)))"
| "expand ds es xs = xs"

definition broadcast_to :: "nat list \<Rightarrow> 'a tensor \<Rightarrow> 'a list" where
  "broadcast_to target t =
     expand (replicate (length target - length (shape t)) 1 @ shape t) target (elems t)"

definition tmul :: "real tensor \<Rightarrow> real tensor \<Rightarrow> error + real tensor" where
  "tmul a b =
     ebind (broadcast_shape (shape a) (shape b)) (\<lambda>s.
       Inr (Tensor s (map2 (*) (broadcast_to s a) (broadcast_to s b))))"

text \<open>
  The buffers hold floating-point numbers. The model computes in exact arithmetic: a
  number is a real, or \<open>None\<close> for the result of a division by zero, which has no value
  in exact arithmetic and is an infinity or NaN in the source; every later sum, product
  and quotient with it is again \<open>None\<close>. The divisor \<^verbatim>\<open>total + mask_size\<close> is a real
  throughout.
\<close>

type_synonym num = "real option"

definition oadd :: "real \<Rightarrow> num \<Rightarrow> num" where
  "oadd x m = map_option (\<lambda>y. x + y) m"

definition omul :: "num \<Rightarrow> real \<Rightarrow> num" where
  "omul m x = map_option (\<lambda>y. y * x) m"

definition odiv :: "num \<Rightarrow> real \<Rightarrow> num" where
  "odiv m x = (if x = 0 then None else map_option (\<lambda>y. y / x) m)"

text \<open>
  \<^verbatim>\<open>
  class ZmuvTransform(nn.Module):
      def __init__(self):
          super().__init__()
          self.register_buffer('total', torch.zeros(1))
          self.register_buffer('mean', torch.zeros(1))
          self.register_buffer('mean2', torch.zeros(1))

      def update(self, data, mask=None):
          with torch.no_grad():
              if mask is not None:
                  data = data * mask
                  mask_size = mask.sum().item()
              else:
                  mask_size = data.numel()
              self.mean = (data.sum() + self.mean * self.total) / (self.total + mask_size)
              self.mean2 = ((data ** 2).sum() + self.mean2 * self.total) / (self.total + mask_size)
              self.total += mask_size

      def initialize(self, iterable):
          for ex in iterable:
              self.update(ex)

      @property
      def std(self):
          return (self.mean2 - self.mean ** 2).sqrt()
  \<close>
  The module is its three buffers; \<^verbatim>\<open>update\<close> returns the module with the new buffers.
  The square root of a negative number is NaN.
\<close>

record ZmuvTransform =
  total :: real
  mean :: num
  mean2 :: num

definition ZmuvTransform_init :: ZmuvTransform where
  "ZmuvTransform_init = \<lparr>total = 0, mean = Some 0, mean2 = Some 0\<rparr>"

definition ZmuvTransform_update ::
  "ZmuvTransform \<Rightarrow> real tensor \<Rightarrow> real tensor option \<Rightarrow> error + ZmuvTransform" where
  "ZmuvTransform_update self data msk =
     ebind (case msk of
              Some m \<Rightarrow> ebind (tmul data m) (\<lambda>d. Inr (d, sum_list (elems m)))
            | None \<Rightarrow> Inr (data, real (numel data)))
       (\<lambda>(data, mask_size).
          Inr \<lparr>total = total self + mask_size,
               mean = odiv (oadd (sum_list (elems data)) (omul (mean self) (total self)))
                        (total self + mask_size),
               mean2 = odiv (oadd (sum_list (map (\<lambda>x. x ^ 2) (elems data)))
                                 (omul (mean2 self) (total self)))
                         (total self + mask_size)\<rparr>)"

fun ZmuvTransform_initialize ::
  "ZmuvTransform \<Rightarrow> real tensor list \<Rightarrow> error + ZmuvTransform" where
  "ZmuvTransform_initialize self [] = Inr self"
| "ZmuvTransform_initialize self (ex # iterable) =
     ebind (ZmuvTransform_update self ex None) (\<lambda>self. ZmuvTransform_initialize self iterable)"

definition ZmuvTransform_std :: "ZmuvTransform \<Rightarrow> num" where
  "ZmuvTransform_std self =
     (case (mean self, mean2 self) of
        (Some m, Some m2) \<Rightarrow> if m2 - m ^ 2 < 0 then None else Some (sqrt (m2 - m ^ 2))
      | _ \<Rightarrow> None)"

text \<open>
  The update rule as the specification words it: the merged moment
  \<open>(s + m * t) / (t + n)\<close> of a running moment \<open>m\<close> over \<open>t\<close> entries and a new sum \<open>s\<close>
  over \<open>n\<close> entries, where the quotient exists.
\<close>

definition spec_moment :: "real \<Rightarrow> num \<Rightarrow> real \<Rightarrow> real \<Rightarrow> num" where
  "spec_moment s m t n =
     (case m of
        None \<Rightarrow> None
      | Some m \<Rightarrow> if t + n = 0 then None else Some ((s + m * t) / (t + n)))"

text \<open>\<^verbatim>\<open>torch.cat((a, b), 0)\<close>, with the same rules as along the last dimension.\<close>

definition cat_first :: "'a tensor \<Rightarrow> 'a tensor \<Rightarrow> error + 'a tensor" where
  "cat_first a b =
    (if shape a = [] \<or> shape b = [] then Inl RuntimeError
     else if shape b = [0] then Inr a
     else if shape a = [0] then Inr b
     else if tl (shape a) = tl (shape b)
       then Inr (Tensor ((hd (shape a) + hd (shape b)) # tl (shape a)) (elems a @ elems b))
     else Inl RuntimeError)"

text \<open>
  A tensor \<open>c\<close> is a concatenation of the chunks \<open>a\<close> and \<open>b\<close>, along whatever axis, when
  it holds the entries of both and nothing else.
\<close>

definition concatenation_of :: "'a tensor \<Rightarrow> 'a tensor \<Rightarrow> 'a tensor \<Rightarrow> bool" where
  "concatenation_of c a b =
     (numel c = numel a + numel b \<and> mset (elems c) = mset (elems a) + mset (elems b))"

section \<open>StandardAudioTransform\<close>

text \<open>
  \<^verbatim>\<open>
  class StandardAudioTransform(nn.Module):
      def __init__(self, sample_rate=16000, **mel_kwargs):
          super().__init__()
          self.spec_transform = MelSpectrogram(n_mels=80, sample_rate=sample_rate, **mel_kwargs)
          self.delta_transform = ComputeDeltas()

      @torch.no_grad()
      def compute_lengths(self, length: torch.Tensor):
          return ((length - self.spec_transform.win_length) / self.spec_transform.hop_length + 1).long()

      def forward(self, audio):
          with torch.no_grad():
              log_mels = self.spec_transform(audio).add_(1e-7).log_().contiguous()
              deltas = self.delta_transform(log_mels)
              accels = self.delta_transform(deltas)
              return torch.stack((log_mels, deltas, accels), 1)
  \<close>
  \<^verbatim>\<open>MelSpectrogram\<close> and \<^verbatim>\<open>ComputeDeltas\<close> are torchaudio's and not part of the module: the
  transform holds them as they are, the spectrogram with the attributes
  \<^verbatim>\<open>compute_lengths\<close> reads and the function it computes, the delta operator as a function.
\<close>

record MelSpectrogram =
  n_fft :: int
  win_length :: int
  hop_length :: int
  mel_call :: "real tensor \<Rightarrow> error + real tensor"

record StandardAudioTransform =
  spec_transform :: MelSpectrogram
  delta_transform :: "real tensor \<Rightarrow> error + real tensor"

text \<open>
  Dividing an integer tensor by a number is true division in torch's default floating
  type, float32: both operands are converted to float32, and the quotient and the sum
  with one are each rounded to the nearest float32, ties to the even significand. A
  float32 has 24 significant bits, so a number of binary exponent \<open>e\<close> is rounded to a
  multiple of \<open>2 ^ (e - 23)\<close>. Sample counts and hop lengths are far inside the normal
  range of float32, so overflow and subnormal numbers are left out.
\<close>

fun bit_length :: "nat \<Rightarrow> nat" where
  "bit_length n = (if n = 0 then 0 else Suc (bit_length (n div 2)))"

declare bit_length.simps [simp del]

text \<open>The binary exponent \<open>\<lfloor>log\<^sub>2 x\<rfloor>\<close> of a positive number.\<close>

definition ilog2 :: "real \<Rightarrow> int" where
  "ilog2 x = (if 1 \<le> x then int (bit_length (nat \<lfloor>x\<rfloor>)) - 1
              else - int (bit_length (nat (\<lceil>1 / x\<rceil> - 1))))"

definition pow2 :: "int \<Rightarrow> real" where
  "pow2 k = (if 0 \<le> k then 2 ^ nat k else 1 / 2 ^ nat (- k))"

definition round_even :: "real \<Rightarrow> int" where
  "round_even x =
     (if x - of_int \<lfloor>x\<rfloor> < 1 / 2 then \<lfloor>x\<rfloor>
      else if 1 / 2 < x - of_int \<lfloor>x\<rfloor> then \<lfloor>x\<rfloor> + 1
      else if even \<lfloor>x\<rfloor> then \<lfloor>x\<rfloor> else \<lfloor>x\<rfloor> + 1)"

definition float32 :: "real \<Rightarrow> real" where
  "float32 x =
     (if x = 0 then 0
      else of_int (round_even (x / pow2 (ilog2 \<bar>x\<bar> - 23))) * pow2 (ilog2 \<bar>x\<bar> - 23))"

text \<open>\<^verbatim>\<open>.long()\<close> of a floating-point value drops the fraction: it truncates toward zero.\<close>

definition long :: "real \<Rightarrow> int" where
  "long x = (if x < 0 then \<lceil>x\<rceil> else \<lfloor>x\<rfloor>)"

definition compute_lengths :: "StandardAudioTransform \<Rightarrow> int tensor \<Rightarrow> int tensor" where
  "compute_lengths self lengths =
     Tensor (shape lengths)
       (map (\<lambda>n. long (float32
                 (float32 (float32 (real_of_int (n - win_length (spec_transform self)))
                           / float32 (real_of_int (hop_length (spec_transform self))))
                  + 1)))
            (elems lengths))"

text \<open>
  \<^verbatim>\<open>.add_(1e-7).log_()\<close> on the fresh spectrogram. Mel energies are non-negative, so the
  logarithm is taken of a positive number.
\<close>

definition log_mels :: "real tensor \<Rightarrow> real tensor" where
  "log_mels mel = Tensor (shape mel) (map (\<lambda>x. ln (x + 1 / 10 ^ 7)) (elems mel))"

definition StandardAudioTransform_forward ::
  "StandardAudioTransform \<Rightarrow> real tensor \<Rightarrow> error + real tensor" where
  "StandardAudioTransform_forward self audio =
     ebind (mel_call (spec_transform self) audio) (\<lambda>mel.
     ebind (delta_transform self (log_mels mel)) (\<lambda>deltas.
     ebind (delta_transform self deltas) (\<lambda>accels.
       stack [log_mels mel, deltas, accels] 1)))"

text \<open>\<^verbatim>\<open>t[:, c]\<close>: the entries of a tensor at index \<open>c\<close> of its second axis.\<close>

definition select_dim1 :: "nat \<Rightarrow> 'a tensor \<Rightarrow> error + 'a tensor" where
  "select_dim1 c t =
     (case shape t of
        b # k # rest \<Rightarrow>
          if c < k
          then Inr (Tensor (b # rest)
                 (concat (map (\<lambda>i. take (prod_list rest) (drop ((i * k + c) * prod_list rest) (elems t)))
                              [0..<b])))
          else Inl IndexError
      | _ \<Rightarrow> Inl IndexError)"

text \<open>
  The number of frames \<^verbatim>\<open>torch.stft\<close> documents for a signal of \<open>l\<close> samples, which is what
  torchaudio's spectrogram returns along the time axis: \<open>1 + l div hop\<close> with centre padding
  (torchaudio's default), \<open>1 + (l - n_fft) div hop\<close> without, for \<open>l \<ge> n_fft\<close>.
\<close>

definition stft_frames :: "bool \<Rightarrow> nat \<Rightarrow> nat \<Rightarrow> nat \<Rightarrow> nat" where
  "stft_frames center nfft hop l = (if center then 1 + l div hop else 1 + (l - nfft) div hop)"

text \<open>
  A spectrogram object with torchaudio's default attributes (\<^verbatim>\<open>n_fft = 400\<close>, the window
  as long, the hop half of it), and stand-ins for the two torchaudio functions for the
  evaluations below: a spectrogram of constant energy with the documented output shape
  \<open>(..., 80, frames)\<close>, whose deltas are zero.
\<close>

definition default_mel :: "(real tensor \<Rightarrow> error + real tensor) \<Rightarrow> MelSpectrogram" where
  "default_mel f = \<lparr>n_fft = 400, win_length = 400, hop_length = 200, mel_call = f\<rparr>"

definition constant_mel :: "nat \<Rightarrow> real tensor \<Rightarrow> error + real tensor" where
  "constant_mel hop audio =
     (case shape audio of
        [] \<Rightarrow> Inl RuntimeError
      | d # ds \<Rightarrow>
          let sh = butlast (d # ds) @ [80, stft_frames True 0 hop (last (d # ds))]
          in Inr (Tensor sh (replicate (prod_list sh) 1)))"

definition zero_deltas :: "real tensor \<Rightarrow> error + real tensor" where
  "zero_deltas t = Inr (Tensor (shape t) (replicate (length (elems t)) 0))"

definition stub_transform :: StandardAudioTransform where
  "stub_transform = \<lparr>spec_transform = default_mel (constant_mel 200), delta_transform = zero_deltas\<rparr>"

section \<open>Basic facts\<close>

lemma ebind_Inr_iff: "ebind m f = Inr r \<longleftrightarrow> (\<exists>v. m = Inr v \<and> f v = Inr r)"
  by (cases m) (simp_all add: ebind_def)

lemma ebind_Inl_iff: "ebind m f = Inl e \<longleftrightarrow> m = Inl e \<or> (\<exists>v. m = Inr v \<and> f v = Inl e)"
  by (cases m) (simp_all add: ebind_def)

lemma ebind_simps [simp]: "ebind (Inl e) f = Inl e" "ebind (Inr v) f = f v"
  by (simp_all add: ebind_def)

lemma emap_Inr_iff:
  "emap f xs = Inr ys \<longleftrightarrow> length ys = length xs \<and> (\<forall>i < length xs. f (xs ! i) = Inr (ys ! i))"
proof (induction xs arbitrary: ys)
  case Nil
  then show ?case by auto
next
  case (Cons x xs)
  show ?case
  proof (cases ys)
    case Nil
    then show ?thesis by (auto simp: ebind_Inr_iff)
  next
    case (Cons y ys')
    then show ?thesis
      by (auto simp: ebind_Inr_iff Cons.IH nth_Cons split: nat.splits)
  qed
qed

lemma emap_Inl_elem: "emap f xs = Inl e \<Longrightarrow> \<exists>x \<in> set xs. f x = Inl e"
  by (induction xs) (auto simp: ebind_Inl_iff)

lemma emap_map: "(\<And>x. x \<in> set xs \<Longrightarrow> f x = Inr (g x)) \<Longrightarrow> emap f xs = Inr (map g xs)"
  by (induction xs) auto

section \<open>batchify: failure on the empty batch\<close>

lemma size_last_not_ValueError: "size_last t \<noteq> Inl ValueError"
  by (simp add: size_last_def split: list.splits)

lemma emap_not_ValueError:
  "(\<And>x. f x \<noteq> Inl ValueError) \<Longrightarrow> emap f xs \<noteq> Inl ValueError"
  using emap_Inl_elem by fastforce

lemma sorted_reverse_length:
  "sorted_reverse key xs = Inr ys \<Longrightarrow> length ys = length xs"
  by (auto simp: sorted_reverse_def ebind_Inr_iff emap_Inr_iff)

lemma sorted_reverse_not_ValueError:
  "(\<And>x. key x \<noteq> Inl ValueError) \<Longrightarrow> sorted_reverse key xs \<noteq> Inl ValueError"
  by (auto simp: sorted_reverse_def ebind_Inl_iff dest!: emap_Inl_elem)

lemma zeros_not_ValueError: "zeros k \<noteq> Inl ValueError"
  by (simp add: zeros_def)

lemma cat_last_not_ValueError: "cat_last a b \<noteq> Inl ValueError"
  by (simp add: cat_last_def)

lemma pad_example_not_ValueError: "pad_example m ex \<noteq> Inl ValueError"
  by (auto simp: pad_example_def ebind_Inl_iff size_last_not_ValueError zeros_not_ValueError
      cat_last_not_ValueError)

lemma stack_not_ValueError: "stack ts d \<noteq> Inl ValueError"
  by (simp add: stack_def Let_def split: list.splits)

text \<open>
  Claim C9. \<^verbatim>\<open>batchify\<close> on the empty sequence raises the ValueError of \<^verbatim>\<open>max\<close> over zero
  elements, and on a non-empty sequence it never raises that error: ValueError has no
  other source in the function, and the maximum is then taken over at least one length.
\<close>

theorem batchify_empty_fails:
  "batchify ([] :: 'm WakeWordClipExample list) = Inl ValueError
   \<and> (\<forall>(ex :: 'm WakeWordClipExample) exs. batchify (ex # exs) \<noteq> Inl ValueError)"
proof (intro conjI allI)
  show "batchify ([] :: 'm WakeWordClipExample list) = Inl ValueError"
    by (simp add: batchify_def sorted_reverse_def py_max_def)
next
  fix ex :: "'m WakeWordClipExample" and exs
  show "batchify (ex # exs) \<noteq> Inl ValueError"
  proof
    assume a: "batchify (ex # exs) = Inl ValueError"
    let ?key = "\<lambda>x :: 'm WakeWordClipExample. size_last (audio_data x)"
    from a sorted_reverse_not_ValueError [of ?key "ex # exs"] size_last_not_ValueError
    obtain ys where ys: "sorted_reverse ?key (ex # exs) = Inr ys"
      and r1: "ebind (emap ?key ys) (\<lambda>lengths.
         ebind (ebind (emap ?key ys) py_max) (\<lambda>max_length.
         ebind (emap (pad_example max_length) ys) (\<lambda>padded.
         ebind (stack padded 0) (\<lambda>audio.
           Inr \<lparr>audio_tensor = audio,
            labels_tensor = tensor_of_list (map (\<lambda>ex. if contains_wake_word ex then 1 else 0) ys),
            lengths_tensor = tensor_of_list lengths\<rparr>)))) = Inl ValueError"
      unfolding batchify_def ebind_Inl_iff by metis
    have len: "length ys = Suc (length exs)"
      using sorted_reverse_length [OF ys] by simp
    from r1 emap_not_ValueError [of ?key ys] size_last_not_ValueError
    obtain ls where ls: "emap ?key ys = Inr ls"
      and r2: "ebind (py_max ls) (\<lambda>max_length.
         ebind (emap (pad_example max_length) ys) (\<lambda>padded.
         ebind (stack padded 0) (\<lambda>audio.
           Inr \<lparr>audio_tensor = audio,
            labels_tensor = tensor_of_list (map (\<lambda>ex. if contains_wake_word ex then 1 else 0) ys),
            lengths_tensor = tensor_of_list ls\<rparr>))) = Inl ValueError"
      unfolding ebind_Inl_iff by auto
    have "length ls = length ys" using ls by (simp add: emap_Inr_iff)
    with len have "ls \<noteq> []" by auto
    then obtain m where m: "py_max ls = Inr m"
      by (cases ls) (auto simp: py_max_def)
    from r2 m have "ebind (emap (pad_example m) ys) (\<lambda>padded.
         ebind (stack padded 0) (\<lambda>audio.
           Inr \<lparr>audio_tensor = audio,
            labels_tensor = tensor_of_list (map (\<lambda>ex. if contains_wake_word ex then 1 else 0) ys),
            lengths_tensor = tensor_of_list ls\<rparr>)) = Inl ValueError"
      by simp
    then show False
      using emap_not_ValueError [of "pad_example m" ys] pad_example_not_ValueError
        stack_not_ValueError
      by (auto simp: ebind_Inl_iff)
  qed
qed

section \<open>batchify: order of the batch\<close>

lemma size_last_Inr_iff: "size_last t = Inr n \<longleftrightarrow> shape t \<noteq> [] \<and> n = last (shape t)"
  by (auto simp: size_last_def split: list.splits)

lemma size_last_Inl_iff: "size_last t = Inl e \<longleftrightarrow> shape t = [] \<and> e = IndexError"
  by (auto simp: size_last_def split: list.splits)

lemma insort_key_map:
  "insort_key f (g x) (map g ys) = map g (insort_key (\<lambda>y. f (g y)) x ys)"
  by (induction ys) simp_all

lemma sort_key_map: "sort_key f (map g xs) = map g (sort_key (\<lambda>y. f (g y)) xs)"
  by (induction xs) (simp_all add: insort_key_map)

lemma zip_map_self: "zip (map k xs) xs = map (\<lambda>x. (k x, x)) xs"
  by (induction xs) simp_all

lemma sorted_reverse_total:
  assumes "\<And>x. x \<in> set xs \<Longrightarrow> key x = Inr (k x)"
  shows "sorted_reverse key xs = Inr (sort_key (\<lambda>x. - int (k x)) xs)"
proof -
  have "emap key xs = Inr (map k xs)"
    using assms by (rule emap_map)
  then show ?thesis
    by (simp add: sorted_reverse_def zip_map_self sort_key_map o_def)
qed

lemma sorted_reverse_keys_defined:
  assumes "sorted_reverse key xs = Inr ys" and "x \<in> set xs"
  shows "\<exists>n. key x = Inr n"
proof -
  from assms(1) obtain ks where "emap key xs = Inr ks"
    by (auto simp: sorted_reverse_def ebind_Inr_iff)
  then have "\<forall>i < length xs. key (xs ! i) = Inr (ks ! i)"
    by (simp add: emap_Inr_iff)
  with assms(2) show ?thesis
    by (metis in_set_conv_nth)
qed

lemma sorted_desc_sort_key:
  "sorted_wrt (\<lambda>x y. k y \<le> k x) (sort_key (\<lambda>x. - int (k x)) xs)"
proof -
  have "sorted (map (\<lambda>x. - int (k x)) (sort_key (\<lambda>x. - int (k x)) xs))"
    by (rule sorted_sort_key)
  then show ?thesis
    by (simp add: sorted_map sorted_wrt_iff_nth_less)
qed

lemma stable_desc_sort_key:
  "filter (\<lambda>x. k x = n) (sort_key (\<lambda>x. - int (k x)) xs) = filter (\<lambda>x. k x = (n::nat)) xs"
  using sort_key_stable [of "\<lambda>x. - int (k x)" "- int n" xs] by simp

lemma py_max_Cons: "py_max (x # xs) = Inr (Max (set (x # xs)))"
  unfolding py_max_def using Max.set_eq_fold [of x xs] by simp

lemma py_max_nonempty: "xs \<noteq> [] \<Longrightarrow> py_max xs = Inr (Max (set xs))"
  by (cases xs) (simp_all add: py_max_Cons del: set_simps)

lemma emap_Inl_if:
  "x \<in> set xs \<Longrightarrow> f x = Inl e \<Longrightarrow> \<exists>e'. emap f xs = Inl e'"
proof (induction xs)
  case Nil
  then show ?case by simp
next
  case (Cons y ys)
  show ?case
  proof (cases "f y")
    case (Inl a)
    then show ?thesis by simp
  next
    case (Inr b)
    show ?thesis
    proof (cases "emap f ys")
      case (Inl a)
      with Inr show ?thesis by simp
    next
      case r: (Inr c)
      from Cons.prems Inr have "x \<in> set ys" by auto
      with Cons.IH Cons.prems(2) r show ?thesis by auto
    qed
  qed
qed

lemma batchify_unfold:
  fixes examples :: "'m WakeWordClipExample list"
  assumes nd: "\<And>x. x \<in> set examples \<Longrightarrow> shape (audio_data x) \<noteq> []"
    and ne: "examples \<noteq> []"
  defines "ys \<equiv> sort_key (\<lambda>x. - int (sample_count x)) examples"
  defines "m \<equiv> Max (sample_count ` set examples)"
  shows "batchify examples =
     ebind (emap (pad_example m) ys) (\<lambda>padded.
     ebind (stack padded 0) (\<lambda>audio. Inr (batch_of ys audio)))"
proof -
  let ?key = "\<lambda>x :: 'm WakeWordClipExample. size_last (audio_data x)"
  have key: "?key x = Inr (sample_count x)" if "x \<in> set examples" for x
    using nd [OF that] by (simp add: size_last_Inr_iff sample_count_def)
  have s: "sorted_reverse ?key examples = Inr ys"
    unfolding ys_def by (rule sorted_reverse_total) (rule key)
  have set_ys: "set ys = set examples" by (simp add: ys_def)
  have l: "emap ?key ys = Inr (map sample_count ys)"
    by (rule emap_map) (simp add: set_ys key)
  have "ys \<noteq> []" using ne set_ys by auto
  then have mx: "py_max (map sample_count ys) = Inr m"
    by (simp add: py_max_nonempty m_def set_ys)
  show ?thesis
    by (simp add: batchify_def s l mx batch_of_def)
qed

lemma pad_example_error:
  assumes "shape (audio_data ex) \<noteq> []" and "pad_example m ex = Inl e"
  shows "e = RuntimeError"
  using assms
  by (auto simp: pad_example_def ebind_Inl_iff size_last_Inl_iff zeros_def cat_last_def
      split: if_splits)

lemma pad_example_one_sample:
  assumes "shape (audio_data ex) \<noteq> []" and "set (shape (audio_data ex)) \<subseteq> {1}"
  shows "pad_example m ex = Inl RuntimeError"
proof -
  have f: "filter (\<lambda>d. d \<noteq> 1) (shape (audio_data ex)) = []"
    using assms(2) by (auto simp: filter_empty_conv)
  obtain n where n: "size_last (audio_data ex) = Inr n"
    using assms(1) by (simp add: size_last_Inr_iff)
  show ?thesis
  proof (cases "zeros (int m - int n)")
    case (Inl a)
    then show ?thesis
      by (simp add: pad_example_def n zeros_def split: if_splits)
  next
    case (Inr z)
    have "shape (squeeze (audio_data ex)) = []"
      using f by (simp add: squeeze_def)
    with Inr show ?thesis
      by (simp add: pad_example_def n cat_last_def)
  qed
qed

text \<open>
  Claim C10. A batch of one-dimensional or \<open>[1, N]\<close> waveforms that holds an example with
  exactly one sample and an example with more than one sample makes \<^verbatim>\<open>batchify\<close> fail:
  \<^verbatim>\<open>squeeze()\<close> turns the one-sample waveform into a zero-dimensional tensor, and
  \<^verbatim>\<open>torch.cat\<close> raises a RuntimeError on it.
\<close>

theorem batchify_one_sample_fails:
  fixes examples :: "'m WakeWordClipExample list"
  assumes shapes: "\<forall>x \<in> set examples. shape (audio_data x) = [sample_count x]
                      \<or> shape (audio_data x) = [1, sample_count x]"
    and one: "\<exists>x \<in> set examples. sample_count x = 1"
    and more: "\<exists>x \<in> set examples. 1 < sample_count x"
  shows "batchify examples = Inl RuntimeError"
proof -
  have nd: "shape (audio_data x) \<noteq> []" if "x \<in> set examples" for x
    using shapes that by auto
  from one obtain x where x: "x \<in> set examples" "sample_count x = 1" by auto
  then have ne: "examples \<noteq> []" by auto
  define ys where "ys = sort_key (\<lambda>x. - int (sample_count x)) examples"
  define m where "m = Max (sample_count ` set examples)"
  have set_ys: "set ys = set examples" by (simp add: ys_def)
  have "set (shape (audio_data x)) \<subseteq> {1}"
    using shapes x by auto
  then have "pad_example m x = Inl RuntimeError"
    using nd [OF x(1)] by (rule pad_example_one_sample [rotated])
  then obtain e where e: "emap (pad_example m) ys = Inl e"
    using emap_Inl_if [of x ys "pad_example m"] x(1) set_ys by auto
  then obtain y where "y \<in> set ys" "pad_example m y = Inl e"
    using emap_Inl_elem by fastforce
  then have "e = RuntimeError"
    using pad_example_error nd set_ys by blast
  with e show ?thesis
    using batchify_unfold [OF nd ne] by (simp add: ys_def m_def)
qed

theorem batchify_one_sample_fails_witness:
  "batchify [clip [2] [1, 2] True, clip [1] [9] False] = Inl RuntimeError"
  using batchify_one_sample_fails [of "[clip [2] [1, 2] True, clip [1] [9] False]"]
  by (simp add: clip_def sample_count_def)

lemma prod_list_squeeze: "prod_list (filter (\<lambda>d. d \<noteq> 1) s) = prod_list (s :: nat list)"
  by (induction s) simp_all

lemma rows_1d: "length es = n \<Longrightarrow> rows (Tensor [n] es) = [es]"
  by (simp add: rows_def)

lemma shape_1d_if_butlast_Nil: "butlast s = [] \<Longrightarrow> s \<noteq> [] \<Longrightarrow> s = [last s]"
  by (cases s) (auto split: if_splits)

lemma pad_example_elems:
  assumes r: "pad_example m ex = Inr r"
    and wf: "wf_tensor (audio_data ex)"
    and le: "sample_count ex \<le> m"
  shows "elems r = elems (audio_data ex) @ replicate (m - sample_count ex) 0 \<and> wf_tensor r"
proof -
  let ?a = "audio_data ex"
  let ?k = "m - sample_count ex"
  let ?z = "Tensor [?k] (replicate ?k 0) :: real tensor"
  from r have nd: "shape ?a \<noteq> []"
    by (auto simp: pad_example_def ebind_Inr_iff size_last_Inr_iff)
  then have n: "size_last ?a = Inr (sample_count ex)"
    by (simp add: size_last_Inr_iff sample_count_def)
  have z: "zeros (int m - int (sample_count ex)) = Inr ?z"
    using le by (simp add: zeros_def nat_diff_distrib')
  from r have c: "cat_last (squeeze ?a) ?z = Inr r"
    by (simp add: pad_example_def n z)
  have len: "length (elems ?a) = prod_list (shape (squeeze ?a))"
    using wf prod_list_squeeze [of "shape ?a"] by (simp add: wf_tensor_def numel_def squeeze_def)
  consider (skipz) "?k = 0" "shape (squeeze ?a) \<noteq> []"
    | (skipa) "?k \<noteq> 0" "shape (squeeze ?a) = [0]"
    | (both) "?k \<noteq> 0" "shape (squeeze ?a) \<noteq> [0]" "shape (squeeze ?a) \<noteq> []"
      "butlast (shape (squeeze ?a)) = []"
    using c by (auto simp: cat_last_def split: if_splits)
  then show ?thesis
  proof cases
    case skipz
    with c have "r = squeeze ?a" by (simp add: cat_last_def split: if_splits)
    then show ?thesis
      using skipz len by (simp add: squeeze_def wf_tensor_def numel_def)
  next
    case skipa
    with c have "r = ?z" by (simp add: cat_last_def split: if_splits)
    moreover have "elems ?a = []" using len skipa by simp
    ultimately show ?thesis by (simp add: wf_tensor_def numel_def)
  next
    case both
    then have s: "shape (squeeze ?a) = [last (shape (squeeze ?a))]"
      using shape_1d_if_butlast_Nil by blast
    define n' where "n' = last (shape (squeeze ?a))"
    have sq: "squeeze ?a = Tensor [n'] (elems ?a)"
      using s by (simp add: squeeze_def n'_def)
    have "prod_list (shape (squeeze ?a)) = n'"
      unfolding n'_def by (subst s) simp
    with len have len': "length (elems ?a) = n'"
      by simp
    have "r = Tensor [n' + ?k] (elems ?a @ replicate ?k 0)"
      using c both(1) len' unfolding sq
      by (simp add: cat_last_def rows_1d split: if_splits)
    then show ?thesis
      using len' by (simp add: wf_tensor_def numel_def)
  qed
qed

lemma concat_map_take_id:
  "(\<And>u. u \<in> set ts \<Longrightarrow> length (f u) = n) \<Longrightarrow> concat (map (\<lambda>u. take n (f u)) ts) = concat (map f ts)"
  by (induction ts) simp_all

lemma stack0_elems:
  assumes "stack ts 0 = Inr r" and "\<And>u. u \<in> set ts \<Longrightarrow> wf_tensor u"
  shows "elems r = concat (map elems ts) \<and> shape r = length ts # shape (hd ts)"
proof (cases ts)
  case Nil
  with assms(1) show ?thesis by (simp add: stack_def)
next
  case (Cons t ts')
  from assms(1) Cons have all: "list_all (\<lambda>u. shape u = shape t) ts"
    by (simp add: stack_def split: if_splits)
  have len: "length (elems u) = prod_list (shape t)" if "u \<in> set ts" for u
    using assms(2) [OF that] all that by (simp add: wf_tensor_def numel_def list_all_iff)
  from assms(1) Cons all
  have "r = Tensor (length ts # shape t) (concat (map (\<lambda>u. take (prod_list (shape t)) (elems u)) ts))"
    by (auto simp: stack_def Let_def)
  then show ?thesis
    using concat_map_take_id [of ts elems "prod_list (shape t)"] len Cons by simp
qed

lemma batchify_Inr_defined:
  assumes "batchify examples = Inr b"
  shows "examples \<noteq> []" and "\<And>x. x \<in> set examples \<Longrightarrow> shape (audio_data x) \<noteq> []"
proof -
  show "examples \<noteq> []"
    using assms by (auto simp: batchify_def sorted_reverse_def py_max_def)
  fix x assume x: "x \<in> set examples"
  from assms obtain ys where "sorted_reverse (\<lambda>x. size_last (audio_data x)) examples = Inr ys"
    by (auto simp: batchify_def ebind_Inr_iff)
  from sorted_reverse_keys_defined [OF this x]
  show "shape (audio_data x) \<noteq> []"
    by (auto simp: size_last_Inr_iff)
qed

text \<open>
  Claim C5. When \<^verbatim>\<open>batchify\<close> returns a batch, the lengths, the labels and the padded rows
  of the batch are those of the input examples in one order \<open>ys\<close>: a rearrangement of the
  input that is sorted by sample count, longest first, and in which the examples of every
  given sample count stand in their input order. The stable sort of a list is unique, so
  the batch depends on the input sequence only.
\<close>

theorem batchify_sorted_stable:
  fixes examples :: "'m WakeWordClipExample list"
  assumes ok: "batchify examples = Inr b"
    and wf: "\<forall>x \<in> set examples. wf_tensor (audio_data x)"
  shows "\<exists>ys. mset ys = mset examples
      \<and> sorted_wrt (\<lambda>x y. sample_count y \<le> sample_count x) ys
      \<and> (\<forall>n. filter (\<lambda>x. sample_count x = n) ys = filter (\<lambda>x. sample_count x = n) examples)
      \<and> lengths_tensor b = tensor_of_list (map sample_count ys)
      \<and> labels_tensor b = tensor_of_list (map (\<lambda>x. if contains_wake_word x then 1 else 0) ys)
      \<and> elems (audio_tensor b) =
          concat (map (\<lambda>x. elems (audio_data x)
                    @ replicate (Max (sample_count ` set examples) - sample_count x) 0) ys)"
proof -
  define ys where "ys = sort_key (\<lambda>x. - int (sample_count x)) examples"
  define m where "m = Max (sample_count ` set examples)"
  note d = batchify_Inr_defined [OF ok]
  have set_ys: "set ys = set examples" by (simp add: ys_def)
  from ok batchify_unfold [OF d(2) d(1)]
  obtain padded audio where p: "emap (pad_example m) ys = Inr padded"
    and st: "stack padded 0 = Inr audio" and b: "b = batch_of ys audio"
    by (auto simp: ebind_Inr_iff ys_def m_def)
  have le: "sample_count x \<le> m" if "x \<in> set examples" for x
    using that by (simp add: m_def)
  from p have lp: "length padded = length ys"
    and pi: "\<And>i. i < length ys \<Longrightarrow> pad_example m (ys ! i) = Inr (padded ! i)"
    by (simp_all add: emap_Inr_iff)
  have row: "elems (padded ! i) = elems (audio_data (ys ! i)) @ replicate (m - sample_count (ys ! i)) 0
       \<and> wf_tensor (padded ! i)" if "i < length ys" for i
  proof -
    have "ys ! i \<in> set examples" using that set_ys nth_mem by blast
    then show ?thesis
      using pad_example_elems [OF pi [OF that]] wf le by blast
  qed
  have wfp: "wf_tensor u" if "u \<in> set padded" for u
    using that row lp by (metis in_set_conv_nth)
  have "map elems padded
      = map (\<lambda>x. elems (audio_data x) @ replicate (m - sample_count x) 0) ys"
    using lp row by (simp add: list_eq_iff_nth_eq)
  with stack0_elems [OF st wfp]
  have au: "elems audio = concat (map (\<lambda>x. elems (audio_data x) @ replicate (m - sample_count x) 0) ys)"
    by simp
  have "mset ys = mset examples" by (simp add: ys_def)
  moreover have "sorted_wrt (\<lambda>x y. sample_count y \<le> sample_count x) ys"
    unfolding ys_def by (rule sorted_desc_sort_key)
  moreover have "\<forall>n. filter (\<lambda>x. sample_count x = n) ys = filter (\<lambda>x. sample_count x = n) examples"
    unfolding ys_def by (simp add: stable_desc_sort_key)
  ultimately show ?thesis
    using au b unfolding m_def by (intro exI [of _ ys]) (simp add: batch_of_def)
qed

theorem batchify_sorted_stable_witness:
  "\<exists>ys. mset ys = mset [clip [2] [1, 2] True, clip [1, 3] [3, 4, 5] False, clip [2] [6, 7] False]
      \<and> sorted_wrt (\<lambda>x y. sample_count y \<le> sample_count x) ys
      \<and> (\<forall>n. filter (\<lambda>x. sample_count x = n) ys
            = filter (\<lambda>x. sample_count x = n)
                [clip [2] [1, 2] True, clip [1, 3] [3, 4, 5] False, clip [2] [6, 7] False])
      \<and> lengths_tensor \<lparr>audio_tensor = Tensor [3, 3] [3, 4, 5, 1, 2, 0, 6, 7, 0],
            labels_tensor = Tensor [3] [0, 1, 0], lengths_tensor = Tensor [3] [3, 2, 2]\<rparr>
          = tensor_of_list (map sample_count ys)
      \<and> labels_tensor \<lparr>audio_tensor = Tensor [3, 3] [3, 4, 5, 1, 2, 0, 6, 7, 0],
            labels_tensor = Tensor [3] [0, 1, 0], lengths_tensor = Tensor [3] [3, 2, 2]\<rparr>
          = tensor_of_list (map (\<lambda>x. if contains_wake_word x then 1 else 0) ys)
      \<and> elems (audio_tensor \<lparr>audio_tensor = Tensor [3, 3] [3, 4, 5, 1, 2, 0, 6, 7, 0],
            labels_tensor = Tensor [3] [0, 1, 0], lengths_tensor = Tensor [3] [3, 2, 2]\<rparr>) =
          concat (map (\<lambda>x. elems (audio_data x)
                    @ replicate (Max (sample_count ` set
                        [clip [2] [1, 2] True, clip [1, 3] [3, 4, 5] False, clip [2] [6, 7] False])
                      - sample_count x) 0) ys)"
proof -
  have ok: "batchify [clip [2] [1, 2] True, clip [1, 3] [3, 4, 5] False, clip [2] [6, 7] False]
      = Inr \<lparr>audio_tensor = Tensor [3, 3] [3, 4, 5, 1, 2, 0, 6, 7, 0],
            labels_tensor = Tensor [3] [0, 1, 0], lengths_tensor = Tensor [3] [3, 2, 2]\<rparr>"
    by (simp add: clip_def batchify_def sorted_reverse_def size_last_def py_max_def
        pad_example_def zeros_def squeeze_def cat_last_def rows_def stack_def tensor_of_list_def)
  have wf: "\<forall>x \<in> set [clip [2] [1, 2] True, clip [1, 3] [3, 4, 5] False, clip [2] [6, 7] False].
      wf_tensor (audio_data x)"
    by (simp add: clip_def wf_tensor_def numel_def)
  show ?thesis
    by (rule batchify_sorted_stable [OF ok wf])
qed

section \<open>batchify: padding\<close>

lemma pad_example_ok:
  assumes sh: "shape (audio_data ex) = [sample_count ex] \<or> shape (audio_data ex) = [1, sample_count ex]"
    and n1: "sample_count ex \<noteq> 1"
    and wf: "wf_tensor (audio_data ex)"
    and le: "sample_count ex \<le> m"
  shows "pad_example m ex
     = Inr (Tensor [m] (elems (audio_data ex) @ replicate (m - sample_count ex) 0))"
proof -
  let ?a = "audio_data ex"
  let ?n = "sample_count ex"
  let ?k = "m - ?n"
  have sq: "squeeze ?a = Tensor [?n] (elems ?a)"
    using sh n1 by (auto simp: squeeze_def)
  have len: "length (elems ?a) = ?n"
    using sh wf by (auto simp: wf_tensor_def numel_def)
  have n: "size_last ?a = Inr ?n"
    using sh by (auto simp: size_last_Inr_iff sample_count_def)
  have z: "zeros (int m - int ?n) = Inr (Tensor [?k] (replicate ?k 0))"
    using le by (simp add: zeros_def nat_diff_distrib')
  have "cat_last (Tensor [?n] (elems ?a)) (Tensor [?k] (replicate ?k 0))
      = Inr (Tensor [m] (elems ?a @ replicate ?k 0))"
    using le len by (auto simp: cat_last_def rows_1d)
  then show ?thesis
    by (simp add: pad_example_def n z sq)
qed

lemma stack0_1d:
  assumes "ts \<noteq> []" and "\<And>u. u \<in> set ts \<Longrightarrow> shape u = [m] \<and> length (elems u) = m"
  shows "stack ts 0 = Inr (Tensor [length ts, m] (concat (map elems ts)))"
proof -
  obtain t ts' where ts: "ts = t # ts'" using assms(1) by (cases ts) auto
  have all: "list_all (\<lambda>u. shape u = shape t) ts"
    using assms(2) ts by (auto simp: list_all_iff)
  have t: "shape t = [m]" using assms(2) ts by simp
  have "concat (map (\<lambda>u. take m (elems u)) ts) = concat (map elems ts)"
    using assms(2) by (intro concat_map_take_id) simp
  then show ?thesis
    using all t ts by (simp add: stack_def)
qed

text \<open>
  Where every waveform is one-dimensional or of shape \<open>[1, N]\<close> and no example has exactly
  one sample, \<^verbatim>\<open>batchify\<close> returns the padded batch: one row per example, as many columns
  as the longest example has samples, each row the waveform followed by zeros.
\<close>

lemma batchify_pads:
  fixes examples :: "'m WakeWordClipExample list"
  assumes ne: "examples \<noteq> []"
    and sh: "\<And>x. x \<in> set examples \<Longrightarrow>
        (shape (audio_data x) = [sample_count x] \<or> shape (audio_data x) = [1, sample_count x])
        \<and> sample_count x \<noteq> 1 \<and> wf_tensor (audio_data x)"
  defines "ys \<equiv> sort_key (\<lambda>x. - int (sample_count x)) examples"
  defines "m \<equiv> Max (sample_count ` set examples)"
  shows "batchify examples
     = Inr (batch_of ys (Tensor [length examples, m]
          (concat (map (\<lambda>x. elems (audio_data x) @ replicate (m - sample_count x) 0) ys))))"
proof -
  let ?row = "\<lambda>x :: 'm WakeWordClipExample. elems (audio_data x) @ replicate (m - sample_count x) 0"
  have nd: "shape (audio_data x) \<noteq> []" if "x \<in> set examples" for x
    using sh [OF that] by auto
  have set_ys: "set ys = set examples" by (simp add: ys_def)
  have le: "sample_count x \<le> m" if "x \<in> set examples" for x
    using that by (simp add: m_def)
  have len: "length (elems (audio_data x)) = sample_count x" if "x \<in> set examples" for x
    using sh [OF that] by (auto simp: wf_tensor_def numel_def)
  have p: "emap (pad_example m) ys = Inr (map (\<lambda>x. Tensor [m] (?row x)) ys)"
    by (rule emap_map) (use sh le set_ys in \<open>simp add: pad_example_ok\<close>)
  have "ys \<noteq> []" using ne set_ys by auto
  then have "stack (map (\<lambda>x. Tensor [m] (?row x)) ys) 0
      = Inr (Tensor [length (map (\<lambda>x. Tensor [m] (?row x)) ys), m]
           (concat (map elems (map (\<lambda>x. Tensor [m] (?row x)) ys))))"
    by (intro stack0_1d) (use len le set_ys in auto)
  then have st: "stack (map (\<lambda>x. Tensor [m] (?row x)) ys) 0
      = Inr (Tensor [length examples, m] (concat (map ?row ys)))"
    by (simp add: o_def ys_def)
  show ?thesis
    using batchify_unfold [OF nd ne] p st by (simp add: ys_def m_def)
qed

text \<open>
  Claim C2. The claim fails where an example has exactly one sample: on a batch of a
  three-sample clip and a one-sample clip of shape \<open>[1, 1]\<close>, \<^verbatim>\<open>batchify\<close> raises the
  RuntimeError of \<^verbatim>\<open>torch.cat\<close> instead of returning a padded batch.
\<close>

theorem batchify_one_sample_clip:
  "batchify [clip [1, 3] [3, 4, 5] False, clip [1, 1] [9] True] = Inl RuntimeError"
  by (simp add: clip_def batchify_def sorted_reverse_def size_last_def py_max_def
      pad_example_def zeros_def squeeze_def cat_last_def)

section \<open>random_slice: windows\<close>

lemma concat_rows_aux:
  "concat (map (\<lambda>i. take n (drop (i * n) es)) [0..<p]) = take (p * n) es"
proof (induction p)
  case 0
  then show ?case by simp
next
  case (Suc p)
  have "take (p * n + n) es = take (p * n) es @ take n (drop (p * n) es)"
    by (rule take_add)
  with Suc show ?case by (simp add: add.commute)
qed

lemma numel_butlast_last: "shape t \<noteq> [] \<Longrightarrow> numel t = prod_list (butlast (shape t)) * last (shape t)"
proof -
  assume "shape t \<noteq> []"
  then have "shape t = butlast (shape t) @ [last (shape t)]" by simp
  then have "prod_list (shape t) = prod_list (butlast (shape t) @ [last (shape t)])" by simp
  then show ?thesis by (simp add: numel_def)
qed

lemma concat_rows: "wf_tensor t \<Longrightarrow> shape t \<noteq> [] \<Longrightarrow> concat (rows t) = elems t"
  by (simp add: rows_def Let_def concat_rows_aux wf_tensor_def numel_butlast_last)

lemma length_rows: "length (rows t) = prod_list (butlast (shape t))"
  by (simp add: rows_def Let_def)

lemma row_length:
  assumes "wf_tensor t" "shape t \<noteq> []" "r \<in> set (rows t)"
  shows "length r = last (shape t)"
proof -
  let ?n = "last (shape t)" and ?p = "prod_list (butlast (shape t))"
  from assms(3) obtain i where i: "i < ?p" "r = take ?n (drop (i * ?n) (elems t))"
    by (auto simp: rows_def Let_def)
  have "length (elems t) = ?p * ?n"
    using assms(1,2) by (simp add: wf_tensor_def numel_butlast_last)
  moreover have "Suc i * ?n \<le> ?p * ?n" using i(1) by (intro mult_le_mono1) simp
  ultimately show ?thesis using i(2) by simp
qed



lemma blocks_of_concat:
  assumes "\<And>b. b \<in> set bs \<Longrightarrow> length b = n"
  shows "map (\<lambda>i. take n (drop (i * n) (concat bs))) [0..<length bs] = bs"
  using assms
proof (induction bs)
  case Nil
  then show ?case by simp
next
  case (Cons b bs)
  have b: "length b = n" using Cons.prems by simp
  have "map (\<lambda>i. take n (drop (i * n) (concat (b # bs)))) [0..<length (b # bs)]
      = take n (b @ concat bs) # map (\<lambda>i. take n (drop (Suc i * n) (b @ concat bs))) [0..<length bs]"
    by (simp add: upt_conv_Cons map_Suc_upt [symmetric] del: upt_Suc)
  also have "take n (b @ concat bs) = b" using b by simp
  also have "map (\<lambda>i. take n (drop (Suc i * n) (b @ concat bs))) [0..<length bs]
      = map (\<lambda>i. take n (drop (i * n) (concat bs))) [0..<length bs]"
    using b by (simp add: add.commute)
  also have "\<dots> = bs" using Cons by simp
  finally show ?case .
qed

lemma rows_Tensor:
  "rows (Tensor s es) = map (\<lambda>i. take (last s) (drop (i * last s) es)) [0..<prod_list (butlast s)]"
  by (simp add: rows_def Let_def)

lemma slice_last_unfold:
  "shape t \<noteq> [] \<Longrightarrow> slice_last a b t =
     Inr (Tensor (butlast (shape t) @ [norm_index b (last (shape t)) - norm_index a (last (shape t))])
           (concat (map (\<lambda>r. take (norm_index b (last (shape t)) - norm_index a (last (shape t)))
                              (drop (norm_index a (last (shape t))) r)) (rows t))))"
  by (cases "shape t") (simp_all add: slice_last_def Let_def)

lemma slice_last_window:
  assumes nd: "shape t \<noteq> []" and wf: "wf_tensor t"
    and w: "0 \<le> w" and a: "0 \<le> a" "a + w \<le> int (last (shape t))"
  shows "\<exists>d. slice_last a (a + w) t = Inr d
      \<and> shape d = butlast (shape t) @ [nat w]
      \<and> rows d = map (\<lambda>r. take (nat w) (drop (nat a) r)) (rows t)
      \<and> list_all (\<lambda>r. length r = nat w) (rows d)"
proof -
  let ?n = "last (shape t)"
  let ?f = "\<lambda>r :: 'a list. take (nat w) (drop (nat a) r)"
  let ?d = "Tensor (butlast (shape t) @ [nat w]) (concat (map ?f (rows t)))"
  have lo: "norm_index a ?n = nat a" using a w by (simp add: norm_index_def)
  have hi: "norm_index (a + w) ?n = nat a + nat w"
    using a w by (simp add: norm_index_def nat_add_distrib)
  have s: "slice_last a (a + w) t = Inr ?d"
    by (simp add: slice_last_unfold [OF nd] lo hi)
  have len: "length (?f r) = nat w" if "r \<in> set (rows t)" for r
  proof -
    have "length r = ?n" using row_length [OF wf nd that] .
    then show ?thesis using a w by simp
  qed
  have "rows ?d = map (\<lambda>i. take (nat w) (drop (i * nat w) (concat (map ?f (rows t))))) [0..<length (map ?f (rows t))]"
    by (simp add: rows_Tensor length_rows)
  also have "\<dots> = map ?f (rows t)"
    by (rule blocks_of_concat) (use len in auto)
  finally have r: "rows ?d = map ?f (rows t)" .
  have "list_all (\<lambda>r. length r = nat w) (rows ?d)"
    unfolding r using len by (simp add: list_all_iff)
  with s r show ?thesis by simp
qed

lemma slice_last_whole:
  assumes nd: "shape t \<noteq> []" and wf: "wf_tensor t"
  shows "slice_last 0 (int (last (shape t))) t = Inr t"
proof -
  let ?n = "last (shape t)"
  have "concat (map (\<lambda>r. take ?n r) (rows t)) = concat (rows t)"
    using row_length [OF wf nd] by (intro arg_cong [where f = concat] map_idI) simp
  then have "concat (map (\<lambda>r. take ?n (drop 0 r)) (rows t)) = elems t"
    using concat_rows [OF wf nd] by simp
  moreover have "butlast (shape t) @ [?n] = shape t" using nd by simp
  ultimately have "Tensor (butlast (shape t) @ [?n]) (concat (map (\<lambda>r. take ?n (drop 0 r)) (rows t))) = t"
    by (cases t) simp
  then show ?thesis
    by (simp add: slice_last_unfold [OF nd] norm_index_def)
qed

text \<open>
  Claim C4. For a generator that keeps \<^verbatim>\<open>randint\<close>'s contract (the result lies in the
  inclusive range), a window \<open>w \<ge> 0\<close> and waveforms with at least one dimension,
  \<^verbatim>\<open>random_slice\<close> returns one output per input, in the input's order; an example of at
  most \<open>w\<close> samples keeps its audio, and a longer one is cut to exactly \<open>w\<close> contiguous
  samples starting at the offset the generator drew from \<open>0\<close> to \<open>L - w\<close> inclusive. That
  the draw is uniform is the contract of \<^verbatim>\<open>random.randint\<close> itself.
\<close>

theorem random_slice_windows:
  fixes examples :: "'m WakeWordClipExample list"
  assumes rng: "\<forall>lo hi g. lo \<le> hi \<longrightarrow> lo \<le> fst (rnd lo hi g) \<and> fst (rnd lo hi g) \<le> hi"
    and w: "0 \<le> w"
    and wf: "\<forall>x \<in> set examples. shape (audio_data x) \<noteq> [] \<and> wf_tensor (audio_data x)"
  shows "\<exists>out g'. random_slice rnd examples w g = Inr (out, g')
      \<and> list_all2 (window_of rnd w) examples out"
  using wf
proof (induction examples arbitrary: g)
  case Nil
  then show ?case by simp
next
  case (Cons ex examples)
  let ?t = "audio_data ex"
  let ?n = "sample_count ex"
  from Cons.prems have nd: "shape ?t \<noteq> []" and wft: "wf_tensor ?t" by simp_all
  have n: "size_last ?t = Inr ?n"
    using nd by (simp add: size_last_Inr_iff sample_count_def)
  show ?case
  proof (cases "int ?n < w")
    case True
    from Cons.IH [of g] Cons.prems obtain out g'
      where "random_slice rnd examples w g = Inr (out, g')" "list_all2 (window_of rnd w) examples out"
      by auto
    moreover have "window_of rnd w ex ex" using True by (simp add: window_of_def)
    ultimately show ?thesis using True by (simp add: n)
  next
    case False
    define a where "a = fst (rnd 0 (int ?n - w) g)"
    define g1 where "g1 = snd (rnd 0 (int ?n - w) g)"
    have ar: "0 \<le> a" "a \<le> int ?n - w"
      using rng False unfolding a_def by auto
    have ri: "randint rnd 0 (int ?n - w) g = Inr (a, g1)"
      using False by (simp add: randint_def a_def g1_def)
    from slice_last_window [OF nd wft w ar(1)] ar(2)
    obtain d where d: "slice_last a (a + w) ?t = Inr d"
      "shape d = butlast (shape ?t) @ [nat w]"
      "rows d = map (\<lambda>r. take (nat w) (drop (nat a) r)) (rows ?t)"
      "list_all (\<lambda>r. length r = nat w) (rows d)"
      by (auto simp: sample_count_def)
    from Cons.IH [of g1] Cons.prems obtain out g'
      where rest: "random_slice rnd examples w g1 = Inr (out, g')"
        "list_all2 (window_of rnd w) examples out"
      by auto
    have "window_of rnd w ex (emplaced_audio_data ex d)"
    proof (cases "int ?n = w")
      case True
      then have "a = 0" using ar by simp
      with d(1) True slice_last_whole [OF nd wft] have "d = ?t"
        by (simp add: sample_count_def)
      then show ?thesis using True by (simp add: window_of_def emplaced_audio_data_def)
    next
      case neq: False
      with False have "\<not> int ?n \<le> w" by simp
      then show ?thesis
        using d(2,3,4) ar unfolding window_of_def emplaced_audio_data_def a_def
        by (auto simp: Let_def intro!: exI [of _ g])
    qed
    with rest show ?thesis using False by (simp add: n ri d(1))
  qed
qed

theorem random_slice_windows_witness:
  "\<exists>out g'. random_slice counter_source
        [clip [5] [1, 2, 3, 4, 5] True, clip [2] [6, 7] False, clip [1, 4] [1, 2, 3, 4] False,
         clip [3] [7, 8, 9] True] 3 (1 :: nat) = Inr (out, g')
      \<and> list_all2 (window_of counter_source 3)
        [clip [5] [1, 2, 3, 4, 5] True, clip [2] [6, 7] False, clip [1, 4] [1, 2, 3, 4] False,
         clip [3] [7, 8, 9] True] out"
proof (rule random_slice_windows)
  show "\<forall>lo hi (g :: nat). lo \<le> hi \<longrightarrow>
      lo \<le> fst (counter_source lo hi g) \<and> fst (counter_source lo hi g) \<le> hi"
  proof (intro allI impI)
    fix lo hi :: int and g :: nat
    assume "lo \<le> hi"
    then have "g mod nat (hi - lo + 1) < nat (hi - lo + 1)" by simp
    then show "lo \<le> fst (counter_source lo hi g) \<and> fst (counter_source lo hi g) \<le> hi"
      by (simp add: counter_source_def)
  qed
  show "(0 :: int) \<le> 3" by simp
  show "\<forall>x \<in> set [clip [5] [1, 2, 3, 4, 5] True, clip [2] [6, 7] False,
      clip [1, 4] [1, 2, 3, 4] False, clip [3] [7, 8, 9] True].
      shape (audio_data x) \<noteq> [] \<and> wf_tensor (audio_data x)"
    by (simp add: clip_def wf_tensor_def numel_def)
qed

lemma random_slice_example:
  "random_slice counter_source
     [clip [5] [1, 2, 3, 4, 5] True, clip [2] [6, 7] False, clip [1, 4] [1, 2, 3, 4] False,
      clip [3] [7, 8, 9] True] 3 (1 :: nat)
   = Inr ([clip [3] [2, 3, 4] True, clip [2] [6, 7] False, clip [1, 3] [1, 2, 3] False,
           clip [3] [7, 8, 9] True], 4)"
  by code_simp

section \<open>compose: sequential application\<close>

lemma sbind_simps [simp]:
  "sbind (Inl e, s) f = (Inl e, s)" "sbind (Inr v, s) f = f v s"
  by (simp_all add: sbind_def)

lemma sbind_cases:
  obtains e s where "m = (Inl e, s)" | v s where "m = (Inr v, s)"
  by (cases m; cases "fst m") auto

lemma sbind_assoc: "sbind (sbind m f) g = sbind m (\<lambda>v s. sbind (f v s) g)"
  by (cases m rule: sbind_cases) simp_all

lemma sbind_unit: "sbind m (\<lambda>v s. (Inr v, s)) = m"
  by (cases m rule: sbind_cases) simp_all

lemma forward_loop_append:
  "forward_loop (xs @ ys) args s = sbind (forward_loop xs args s) (forward_loop ys)"
proof (induction xs arbitrary: args s)
  case Nil
  then show ?case by simp
next
  case (Cons a xs)
  show ?case
    by (cases "call a args s" rule: sbind_cases) (simp_all add: Cons.IH)
qed

lemma forward_loop_singleton_result:
  "xs \<noteq> [] \<Longrightarrow> sbind (forward_loop xs args s) (\<lambda>a s'. f [hd a] s') = sbind (forward_loop xs args s) f"
proof (induction xs arbitrary: args s)
  case Nil
  then show ?case by simp
next
  case (Cons m xs)
  show ?case
  proof (cases "call m args s" rule: sbind_cases)
    case 1
    then show ?thesis by simp
  next
    case (2 v s1)
    show ?thesis
    proof (cases "xs = []")
      case True
      with 2 show ?thesis by simp
    next
      case False
      with 2 Cons.IH [of "[v]" s1] show ?thesis by simp
    qed
  qed
qed

lemma modules_compose: "modules (compose stages) = stages"
  by (simp add: compose_def Composition_init_def)

lemma Composition_forward_single:
  "Composition_forward (compose [m]) args s = call m args s"
  by (simp add: Composition_forward_def modules_compose sbind_assoc sbind_unit)

lemma Composition_forward_append1:
  assumes "xs \<noteq> []"
  shows "Composition_forward (compose (xs @ [m])) args s =
     sbind (Composition_forward (compose xs) args s) (\<lambda>r s'. call m [r] s')"
proof -
  let ?pick = "\<lambda>(args :: 'a list) (s' :: 'b). case args of [] \<Rightarrow> (Inl IndexError, s') | r # _ \<Rightarrow> (Inr r, s')"
  have "Composition_forward (compose (xs @ [m])) args s
      = sbind (forward_loop xs args s) (\<lambda>a s'. call m a s')"
    by (simp add: Composition_forward_def modules_compose forward_loop_append sbind_assoc sbind_unit)
  also have "\<dots> = sbind (forward_loop xs args s) (\<lambda>a s'. call m [hd a] s')"
    using forward_loop_singleton_result [OF assms, of args s "\<lambda>a s'. call m a s'"] by simp
  also have "\<dots> = sbind (forward_loop xs args s) (\<lambda>a s'. sbind (?pick [hd a] s') (\<lambda>r s'. call m [r] s'))"
    by simp
  also have "\<dots> = sbind (forward_loop xs args s) (\<lambda>a s'. sbind (?pick a s') (\<lambda>r s'. call m [r] s'))"
    using forward_loop_singleton_result [OF assms, of args s "\<lambda>a s'. sbind (?pick a s') (\<lambda>r s'. call m [r] s')"]
    by simp
  finally show ?thesis
    by (simp add: Composition_forward_def modules_compose sbind_assoc)
qed

lemma set_Composition_parameters:
  "set (Composition_parameters (compose stages))
     = \<Union> (set ` stage_parameters ` {x \<in> set stages. is_module x})"
  by (simp add: Composition_parameters_def compose_def Composition_init_def image_image)

text \<open>
  Claim C8. The composition keeps the stages in their order and registers exactly the
  stages that are modules, so its parameters are those of the module stages. A pipeline
  of one stage passes the initial arguments to it and returns its output; a pipeline of
  more stages runs all but the last, then calls the last stage on the previous output as
  its only argument and returns what it returns. An exception of a stage ends the call.
\<close>

theorem compose_sequential:
  fixes m m0 :: "('v, 's, 'p) stage"
  shows "modules (compose stages) = stages
    \<and> module_list (compose stages) = filter is_module stages
    \<and> set (Composition_parameters (compose stages))
        = \<Union> (set ` stage_parameters ` {x \<in> set stages. is_module x})
    \<and> Composition_forward (compose [m]) args s = call m args s
    \<and> Composition_forward (compose (m0 # ms @ [m])) args s =
        sbind (Composition_forward (compose (m0 # ms)) args s) (\<lambda>r s'. call m [r] s')"
proof (intro conjI)
  show "modules (compose stages) = stages"
    by (rule modules_compose)
  show "module_list (compose stages) = filter is_module stages"
    by (simp add: compose_def Composition_init_def)
  show "set (Composition_parameters (compose stages))
        = \<Union> (set ` stage_parameters ` {x \<in> set stages. is_module x})"
    by (rule set_Composition_parameters)
  show "Composition_forward (compose [m]) args s = call m args s"
    by (rule Composition_forward_single)
  show "Composition_forward (compose (m0 # ms @ [m])) args s =
        sbind (Composition_forward (compose (m0 # ms)) args s) (\<lambda>r s'. call m [r] s')"
    using Composition_forward_append1 [of "m0 # ms" m args s] by simp
qed

text \<open>With no stage at all the pipeline returns its first argument.\<close>

lemma Composition_forward_no_stage:
  "Composition_forward (compose []) args s =
     (case args of [] \<Rightarrow> (Inl IndexError, s) | r # _ \<Rightarrow> (Inr r, s))"
  by (simp add: Composition_forward_def modules_compose)

lemma compose_example:
  "Composition_forward
     (compose [Function (\<lambda>args s. (Inr (sum_list args), s @ [1 :: nat])),
               Module [''scale''] (\<lambda>args s. (Inr (2 * hd args), s @ [2])),
               Function (\<lambda>args s. (Inr (hd args + 1), s @ [3]))])
     [3, 4 :: int] [] = (Inr 15, [1, 2, 3])"
  by (simp add: Composition_forward_def modules_compose)

section \<open>ZmuvTransform: the update rule\<close>

lemma odiv_spec_moment: "odiv (oadd s (omul m t)) (t + n) = spec_moment s m t n"
  by (cases m) (simp_all add: odiv_def oadd_def omul_def spec_moment_def)

text \<open>
  Claim C1. Every call of \<^verbatim>\<open>update\<close> leaves the buffers the update rule describes: without
  a mask the count \<open>n\<close> is the number of entries of the data, with a mask it is the sum of
  the mask and the data is first multiplied by the mask (the call raises what the
  multiplication raises); the new total is the old total plus \<open>n\<close>, and the new moments are
  \<open>(sum + moment * total) / (total + n)\<close> for the sum and the sum of squares of the data.
\<close>

theorem ZmuvTransform_update_rule:
  "ZmuvTransform_update self data None =
     Inr \<lparr>total = total self + real (numel data),
          mean = spec_moment (sum_list (elems data)) (mean self) (total self) (real (numel data)),
          mean2 = spec_moment (sum_list (map (\<lambda>x. x ^ 2) (elems data))) (mean2 self) (total self)
                    (real (numel data))\<rparr>
   \<and> ZmuvTransform_update self data (Some msk) =
     ebind (tmul data msk) (\<lambda>masked.
       Inr \<lparr>total = total self + sum_list (elems msk),
            mean = spec_moment (sum_list (elems masked)) (mean self) (total self) (sum_list (elems msk)),
            mean2 = spec_moment (sum_list (map (\<lambda>x. x ^ 2) (elems masked))) (mean2 self) (total self)
                      (sum_list (elems msk))\<rparr>)"
proof
  show "ZmuvTransform_update self data None =
     Inr \<lparr>total = total self + real (numel data),
          mean = spec_moment (sum_list (elems data)) (mean self) (total self) (real (numel data)),
          mean2 = spec_moment (sum_list (map (\<lambda>x. x ^ 2) (elems data))) (mean2 self) (total self)
                    (real (numel data))\<rparr>"
    by (simp add: ZmuvTransform_update_def odiv_spec_moment)
next
  show "ZmuvTransform_update self data (Some msk) =
     ebind (tmul data msk) (\<lambda>masked.
       Inr \<lparr>total = total self + sum_list (elems msk),
            mean = spec_moment (sum_list (elems masked)) (mean self) (total self) (sum_list (elems msk)),
            mean2 = spec_moment (sum_list (map (\<lambda>x. x ^ 2) (elems masked))) (mean2 self) (total self)
                      (sum_list (elems msk))\<rparr>)"
    by (cases "tmul data msk") (simp_all add: ZmuvTransform_update_def odiv_spec_moment)
qed

lemma update_from_init:
  "ZmuvTransform_update ZmuvTransform_init c None =
     Inr \<lparr>total = real (numel c),
          mean = (if numel c = 0 then None else Some (sum_list (elems c) / real (numel c))),
          mean2 = (if numel c = 0 then None
                   else Some (sum_list (map (\<lambda>x. x ^ 2) (elems c)) / real (numel c)))\<rparr>"
  by (simp add: ZmuvTransform_update_def ZmuvTransform_init_def odiv_def oadd_def omul_def)

lemma update_twice_from_init:
  assumes "0 < numel a"
  shows "ZmuvTransform_initialize ZmuvTransform_init [a, b] =
     Inr \<lparr>total = real (numel a) + real (numel b),
          mean = Some ((sum_list (elems a) + sum_list (elems b)) / (real (numel a) + real (numel b))),
          mean2 = Some ((sum_list (map (\<lambda>x. x ^ 2) (elems a)) + sum_list (map (\<lambda>x. x ^ 2) (elems b)))
                    / (real (numel a) + real (numel b)))\<rparr>"
proof -
  let ?na = "real (numel a)" and ?nb = "real (numel b)"
  have na: "?na \<noteq> 0" and pos: "?na + ?nb \<noteq> 0" using assms by simp_all
  have first: "ZmuvTransform_update ZmuvTransform_init a None =
     Inr \<lparr>total = ?na, mean = Some (sum_list (elems a) / ?na),
          mean2 = Some (sum_list (map (\<lambda>x. x ^ 2) (elems a)) / ?na)\<rparr>"
    using assms by (simp add: update_from_init)
  have second: "ZmuvTransform_update \<lparr>total = ?na, mean = Some m, mean2 = Some q\<rparr> b None =
     Inr \<lparr>total = ?na + ?nb, mean = Some ((sum_list (elems b) + m * ?na) / (?na + ?nb)),
          mean2 = Some ((sum_list (map (\<lambda>x. x ^ 2) (elems b)) + q * ?na) / (?na + ?nb))\<rparr>"
    for m q
    using pos by (simp add: ZmuvTransform_update_def odiv_def oadd_def omul_def)
  show ?thesis
    using na by (simp add: first second add.commute)
qed

lemma concatenation_sums:
  fixes c :: "real tensor" and f :: "real \<Rightarrow> real"
  assumes "concatenation_of c a b"
  shows "real (numel c) = real (numel a) + real (numel b)"
    and "sum_list (elems c) = sum_list (elems a) + sum_list (elems b)"
    and "sum_list (map f (elems c)) = sum_list (map f (elems a)) + sum_list (map f (elems b))"
proof -
  from assms have n: "numel c = numel a + numel b"
    and m: "mset (elems c) = mset (elems a) + mset (elems b)"
    by (simp_all add: concatenation_of_def)
  show "real (numel c) = real (numel a) + real (numel b)" using n by simp
  have "sum_mset (mset (elems c)) = sum_mset (mset (elems a) + mset (elems b))"
    using m by simp
  then show "sum_list (elems c) = sum_list (elems a) + sum_list (elems b)"
    by (simp add: sum_mset_sum_list)
  have "sum_mset (image_mset f (mset (elems c))) = sum_mset (image_mset f (mset (elems a) + mset (elems b)))"
    using m by simp
  then show "sum_list (map f (elems c)) = sum_list (map f (elems a)) + sum_list (map f (elems b))"
    by (simp add: sum_mset_sum_list flip: mset_map)
qed

text \<open>
  Claim C7, amended. For two non-empty chunks and any tensor that holds exactly the
  entries of both, updating the fresh normalizer with one chunk and then the other, in
  either order, leaves the same total, mean and mean of squares as one update with the
  concatenation; the standard deviation is a function of the two moments.
\<close>

theorem ZmuvTransform_update_merge:
  assumes a: "0 < numel a" and b: "0 < numel b" and c: "concatenation_of c a b"
  shows "ZmuvTransform_initialize ZmuvTransform_init [a, b]
           = ZmuvTransform_update ZmuvTransform_init c None
       \<and> ZmuvTransform_initialize ZmuvTransform_init [b, a]
           = ZmuvTransform_update ZmuvTransform_init c None
       \<and> ZmuvTransform_update ZmuvTransform_init c None
           = Inr \<lparr>total = real (numel c),
                  mean = Some (sum_list (elems c) / real (numel c)),
                  mean2 = Some (sum_list (map (\<lambda>x. x ^ 2) (elems c)) / real (numel c))\<rparr>"
proof -
  note s = concatenation_sums [OF c]
  have nc: "numel c \<noteq> 0" using a c by (simp add: concatenation_of_def)
  have one: "ZmuvTransform_update ZmuvTransform_init c None
           = Inr \<lparr>total = real (numel c),
                  mean = Some (sum_list (elems c) / real (numel c)),
                  mean2 = Some (sum_list (map (\<lambda>x. x ^ 2) (elems c)) / real (numel c))\<rparr>"
    using nc by (simp add: update_from_init)
  have ab: "ZmuvTransform_initialize ZmuvTransform_init [a, b]
           = ZmuvTransform_update ZmuvTransform_init c None"
    unfolding one update_twice_from_init [OF a] s by simp
  have ba: "ZmuvTransform_initialize ZmuvTransform_init [b, a]
           = ZmuvTransform_update ZmuvTransform_init c None"
    unfolding one update_twice_from_init [OF b] s by (simp add: add.commute)
  from ab ba one show ?thesis by simp
qed

text \<open>
  Claim C7 as stated fails for an empty chunk: the update with an empty tensor divides
  zero by zero, the moments are no numbers from then on, and the second update cannot
  repair them, while one update with the concatenation gives mean and mean of squares 1.
\<close>

theorem ZmuvTransform_update_empty_chunk:
  "cat_first (Tensor [0] []) (Tensor [1] [1 :: real]) = Inr (Tensor [1] [1])
   \<and> ZmuvTransform_initialize ZmuvTransform_init [Tensor [0] [], Tensor [1] [1]]
       = Inr \<lparr>total = 1, mean = None, mean2 = None\<rparr>
   \<and> ZmuvTransform_update ZmuvTransform_init (Tensor [1] [1]) None
       = Inr \<lparr>total = 1, mean = Some 1, mean2 = Some 1\<rparr>
   \<and> ZmuvTransform_initialize ZmuvTransform_init [Tensor [0] [], Tensor [1] [1]]
       \<noteq> ZmuvTransform_update ZmuvTransform_init (Tensor [1] [1]) None"
  by (simp add: cat_first_def ZmuvTransform_update_def ZmuvTransform_init_def numel_def
      odiv_def oadd_def omul_def)

lemma cat_first_concatenation:
  assumes "cat_first a b = Inr c" "wf_tensor a" "wf_tensor b"
  shows "concatenation_of c a b"
proof -
  have e: "elems t = []" if "shape t = [0]" "wf_tensor t" for t :: "'a tensor"
    using that by (simp add: wf_tensor_def numel_def)
  have n: "numel t = hd (shape t) * prod_list (tl (shape t))" if "shape t \<noteq> []" for t :: "'a tensor"
    using that by (cases "shape t") (simp_all add: numel_def)
  from assms(1) have nd: "shape a \<noteq> []" "shape b \<noteq> []"
    by (simp_all add: cat_first_def split: if_splits)
  show ?thesis
  proof (cases "shape b = [0]")
    case True
    with assms(1) nd have "c = a" by (simp add: cat_first_def)
    then show ?thesis
      using e [OF True assms(3)] True by (simp add: concatenation_of_def numel_def)
  next
    case nb: False
    show ?thesis
    proof (cases "shape a = [0]")
      case True
      with assms(1) nd nb have "c = b" by (simp add: cat_first_def)
      then show ?thesis
        using e [OF True assms(2)] True by (simp add: concatenation_of_def numel_def)
    next
      case False
      with assms(1) nd nb have t: "tl (shape a) = tl (shape b)"
        and c: "c = Tensor ((hd (shape a) + hd (shape b)) # tl (shape a)) (elems a @ elems b)"
        by (simp_all add: cat_first_def split: if_splits)
      have "numel c = numel a + numel b"
        unfolding n [OF nd(1)] n [OF nd(2)] t c by (simp add: numel_def algebra_simps)
      then show ?thesis
        using c by (simp add: concatenation_of_def)
    qed
  qed
qed

theorem ZmuvTransform_update_merge_witness:
  "ZmuvTransform_initialize ZmuvTransform_init [Tensor [2] [1, 2], Tensor [1] [6]]
           = ZmuvTransform_update ZmuvTransform_init (Tensor [3] [1, 2, 6]) None
       \<and> ZmuvTransform_initialize ZmuvTransform_init [Tensor [1] [6], Tensor [2] [1, 2]]
           = ZmuvTransform_update ZmuvTransform_init (Tensor [3] [1, 2, 6]) None
       \<and> ZmuvTransform_update ZmuvTransform_init (Tensor [3] [1, 2, 6]) None
           = Inr \<lparr>total = 3, mean = Some 3, mean2 = Some (41 / 3)\<rparr>"
proof -
  have c: "concatenation_of (Tensor [3] [1, 2, 6 :: real]) (Tensor [2] [1, 2]) (Tensor [1] [6])"
    by (rule cat_first_concatenation) (simp_all add: cat_first_def wf_tensor_def numel_def)
  have a: "0 < numel (Tensor [2] [1, 2 :: real])" and b: "0 < numel (Tensor [1] [6 :: real])"
    by (simp_all add: numel_def)
  show ?thesis
    using ZmuvTransform_update_merge [OF a b c] by (simp add: numel_def)
qed

lemma ZmuvTransform_update_example:
  "ZmuvTransform_update \<lparr>total = 2, mean = Some 1, mean2 = Some 3\<rparr>
     (Tensor [2, 3] [1, 2, 3, 4, 5, 6]) (Some (Tensor [2, 1] [1, 0]))
   = Inr \<lparr>total = 3, mean = Some (8 / 3), mean2 = Some (20 / 3)\<rparr>"
  by code_simp

section \<open>StandardAudioTransform: lengths and channels\<close>

lemma nth_concat_fixed:
  assumes "\<And>xs. xs \<in> set xss \<Longrightarrow> length xs = k" and "i < length xss" and "c < k"
  shows "concat xss ! (i * k + c) = xss ! i ! c"
  using assms
proof (induction xss arbitrary: i)
  case Nil
  then show ?case by simp
next
  case (Cons xs xss)
  have len: "length xs = k" using Cons.prems(1) by simp
  show ?case
  proof (cases i)
    case 0
    with len Cons.prems(3) show ?thesis by (simp add: nth_append)
  next
    case (Suc j)
    have "concat (xs # xss) ! (i * k + c) = concat xss ! (j * k + c)"
      using len Suc by (simp add: nth_append)
    also have "\<dots> = xss ! j ! c"
      using Cons.prems Suc by (intro Cons.IH) simp_all
    finally show ?thesis using Suc by simp
  qed
qed

lemma take_drop_block:
  assumes "\<And>b. b \<in> set bs \<Longrightarrow> length b = n" and "j < length bs"
  shows "take n (drop (j * n) (concat bs)) = bs ! j"
proof -
  have "map (\<lambda>i. take n (drop (i * n) (concat bs))) [0..<length bs] ! j = bs ! j"
    using blocks_of_concat [OF assms(1)] by simp
  then show ?thesis using assms(2) by simp
qed

lemma stack1_shape:
  assumes "ts \<noteq> []" and "\<And>u. u \<in> set ts \<Longrightarrow> shape u = b # rest"
  shows "stack ts 1 =
     Inr (Tensor (b # length ts # rest)
       (concat (map (\<lambda>i. concat (map (\<lambda>u. take (prod_list rest) (drop (i * prod_list rest) (elems u)))
                                     ts)) [0..<b])))"
proof -
  obtain t ts' where ts: "ts = t # ts'" using assms(1) by (cases ts) auto
  have t: "shape t = b # rest" using assms(2) ts by simp
  have all: "list_all (\<lambda>u. shape u = shape t) ts"
    using assms(2) t by (simp add: list_all_iff)
  have "stack ts 1 =
     Inr (Tensor (take 1 (shape t) @ length ts # drop 1 (shape t))
       (concat (map (\<lambda>out. concat (map (\<lambda>u. take (prod_list (drop 1 (shape t)))
            (drop (out * prod_list (drop 1 (shape t))) (elems u))) ts))
          [0..<prod_list (take 1 (shape t))])))"
    unfolding stack_def ts [symmetric] using all t by (simp add: ts Let_def)
  then show ?thesis by (simp add: t)
qed

lemma concat_concat_map: "concat (concat (map f xs)) = concat (map (\<lambda>i. concat (f i)) xs)"
  by (induction xs) simp_all

lemma block_length:
  assumes "length es = b * p" "i < b"
  shows "length (take p (drop (i * p) es)) = p"
proof -
  have "Suc i * p \<le> b * p" using assms(2) by (intro mult_le_mono1) simp
  then show ?thesis using assms(1) by simp
qed

lemma blocks_length:
  assumes "\<And>u. u \<in> set ts \<Longrightarrow> length (elems u) = b * p"
    and "x \<in> set (concat (map (\<lambda>i. map (\<lambda>u. take p (drop (i * p) (elems u))) ts) [0..<b]))"
  shows "length x = p"
proof -
  from assms(2) obtain i u where "i < b" "u \<in> set ts" "x = take p (drop (i * p) (elems u))"
    by auto
  then show ?thesis using block_length [OF assms(1)] by simp
qed

lemma select_stack1:
  fixes ts :: "'a tensor list"
  assumes ne: "ts \<noteq> []"
    and sh: "\<And>u. u \<in> set ts \<Longrightarrow> shape u = b # rest"
    and wf: "\<And>u. u \<in> set ts \<Longrightarrow> wf_tensor u"
    and st: "stack ts 1 = Inr out"
    and c: "c < length ts"
  shows "select_dim1 c out = Inr (ts ! c)"
proof -
  define p where "p = prod_list rest"
  define k where "k = length ts"
  define blk where "blk = (\<lambda>i (u :: 'a tensor). take p (drop (i * p) (elems u)))"
  define bl where "bl = map (\<lambda>i. map (blk i) ts) [0..<b]"
  have len: "length (elems u) = b * p" if "u \<in> set ts" for u
    using sh [OF that] wf [OF that] by (simp add: wf_tensor_def numel_def p_def)
  have out: "out = Tensor (b # k # rest) (concat (concat bl))"
    using st stack1_shape [OF ne sh]
    by (simp add: concat_concat_map bl_def blk_def p_def k_def)
  have blen: "length x = p" if "x \<in> set (concat bl)" for x
    using len that unfolding bl_def blk_def by (rule blocks_length)
  have lk: "length xs = k" if "xs \<in> set bl" for xs
    using that by (auto simp: bl_def k_def)
  have lbl: "length bl = b" by (simp add: bl_def)
  have lcb: "length (concat bl) = b * k"
    by (simp add: bl_def length_concat o_def sum_list_triv k_def)
  have ck: "c < k" using c by (simp add: k_def)
  have sel: "take p (drop ((i * k + c) * p) (concat (concat bl))) = blk i (ts ! c)"
    if i: "i < b" for i
  proof -
    have "i * k + c < Suc i * k" using ck by simp
    also have "\<dots> \<le> b * k" using i by (intro mult_le_mono1) simp
    finally have j: "i * k + c < length (concat bl)" using lcb by simp
    have "take p (drop ((i * k + c) * p) (concat (concat bl))) = concat bl ! (i * k + c)"
      using blen j by (rule take_drop_block)
    also have "\<dots> = bl ! i ! c"
    proof (rule nth_concat_fixed [OF lk _ ck])
      show "i < length bl" using i lbl by simp
    qed
    also have "\<dots> = blk i (ts ! c)"
      using i c by (simp add: bl_def)
    finally show ?thesis .
  qed
  have "select_dim1 c out
      = Inr (Tensor (b # rest) (concat (map (\<lambda>i. take p (drop ((i * k + c) * p)
               (concat (concat bl)))) [0..<b])))"
    using ck unfolding out by (simp add: select_dim1_def p_def)
  also have "map (\<lambda>i. take p (drop ((i * k + c) * p) (concat (concat bl)))) [0..<b]
      = map (\<lambda>i. blk i (ts ! c)) [0..<b]"
    using sel by (intro map_cong) simp_all
  also have "concat (map (\<lambda>i. blk i (ts ! c)) [0..<b]) = take (b * p) (elems (ts ! c))"
    unfolding blk_def by (rule concat_rows_aux)
  also have "\<dots> = elems (ts ! c)"
    using len [of "ts ! c"] c by simp
  also have "Tensor (b # rest) (elems (ts ! c)) = ts ! c"
  proof -
    have "shape (ts ! c) = b # rest" using c by (intro sh) simp
    then show ?thesis by (cases "ts ! c") simp
  qed
  finally show ?thesis .
qed

lemma forward_result:
  assumes mel: "mel_call (spec_transform self) audio = Inr m"
    and sh: "shape m = b # rest"
    and d: "delta_transform self (log_mels m) = Inr d" "shape d = shape m"
    and a: "delta_transform self d = Inr a" "shape a = shape m"
  shows "StandardAudioTransform_forward self audio = stack [log_mels m, d, a] 1"
    and "\<exists>es. stack [log_mels m, d, a] 1 = Inr (Tensor (b # 3 # rest) es)"
proof -
  show "StandardAudioTransform_forward self audio = stack [log_mels m, d, a] 1"
    by (simp add: StandardAudioTransform_forward_def mel d a)
  have shs: "\<And>u. u \<in> set [log_mels m, d, a] \<Longrightarrow> shape u = b # rest"
    using sh d(2) a(2) by (auto simp: log_mels_def)
  have "[log_mels m, d, a] \<noteq> []" by simp
  from stack1_shape [OF this shs] show "\<exists>es. stack [log_mels m, d, a] 1 = Inr (Tensor (b # 3 # rest) es)"
    by simp
qed

lemma wf_log_mels: "wf_tensor m \<Longrightarrow> wf_tensor (log_mels m)"
  by (simp add: wf_tensor_def numel_def log_mels_def)

text \<open>
  Claim C6, amended. Where the spectrogram and the two delta computations return and the
  deltas have the spectrogram's shape, \<^verbatim>\<open>forward\<close> returns the log-mel spectrogram, its
  delta and the delta of the delta as the three entries of a new axis at position 1: a
  spectrogram of shape \<open>b # rest\<close> gives an output of shape \<open>b # 3 # rest\<close>, so
  \<open>[batch, mel, time]\<close> gives \<open>[batch, 3, mel, time]\<close>.
\<close>

theorem forward_stacks_channels:
  assumes mel: "mel_call (spec_transform self) audio = Inr m"
    and sh: "shape m = b # rest" and wfm: "wf_tensor m"
    and d: "delta_transform self (log_mels m) = Inr d" "shape d = shape m" "wf_tensor d"
    and a: "delta_transform self d = Inr a" "shape a = shape m" "wf_tensor a"
  shows "\<exists>out. StandardAudioTransform_forward self audio = Inr out
      \<and> shape out = b # 3 # rest
      \<and> select_dim1 0 out = Inr (log_mels m)
      \<and> select_dim1 1 out = Inr d
      \<and> select_dim1 2 out = Inr a"
proof -
  let ?ts = "[log_mels m, d, a]"
  from forward_result [OF mel sh d(1,2) a(1,2)]
  obtain es where f: "StandardAudioTransform_forward self audio = stack ?ts 1"
    and st: "stack ?ts 1 = Inr (Tensor (b # 3 # rest) es)"
    by blast
  have shs: "\<And>u. u \<in> set ?ts \<Longrightarrow> shape u = b # rest"
    using sh d(2) a(2) by (auto simp: log_mels_def)
  have wfs: "\<And>u. u \<in> set ?ts \<Longrightarrow> wf_tensor u"
    using wfm d(3) a(3) by (auto simp: wf_log_mels)
  have sel: "select_dim1 c (Tensor (b # 3 # rest) es) = Inr (?ts ! c)" if "c < length ?ts" for c
    using _ shs wfs st that by (rule select_stack1) simp
  have "select_dim1 0 (Tensor (b # 3 # rest) es) = Inr (log_mels m)"
    using sel [of 0] by simp
  moreover have "select_dim1 1 (Tensor (b # 3 # rest) es) = Inr d"
    using sel [of 1] by simp
  moreover have "select_dim1 2 (Tensor (b # 3 # rest) es) = Inr a"
    using sel [of 2] by simp
  ultimately show ?thesis
    using f st by simp
qed

lemma stub_mel_800:
  "mel_call (spec_transform stub_transform) (Tensor [800] (replicate 800 0))
     = Inr (Tensor [80, 5] (replicate 400 1))"
  by (simp add: stub_transform_def default_mel_def constant_mel_def stft_frames_def)

lemma stub_mel_batch:
  "mel_call (spec_transform stub_transform) (Tensor [2, 800] (replicate 1600 0))
     = Inr (Tensor [2, 80, 5] (replicate 800 1))"
  by (simp add: stub_transform_def default_mel_def constant_mel_def stft_frames_def)

lemma stub_delta:
  "delta_transform stub_transform t = Inr (Tensor (shape t) (replicate (length (elems t)) 0))"
  by (simp add: stub_transform_def zero_deltas_def)

text \<open>
  Claim C6 as stated fails for an unbatched waveform: 800 samples give a \<open>[80, 5]\<close>
  spectrogram, and stacking along axis 1 gives \<open>[80, 3, 5]\<close>, not \<open>[3, 80, 5]\<close>.
\<close>

theorem forward_unbatched_shape:
  "map_sum id shape (StandardAudioTransform_forward stub_transform (Tensor [800] (replicate 800 0)))
     = Inr [80, 3, 5]
   \<and> map_sum id shape (StandardAudioTransform_forward stub_transform (Tensor [800] (replicate 800 0)))
     \<noteq> Inr [3, 80, 5]"
proof -
  let ?m = "Tensor [80, 5] (replicate 400 1) :: real tensor"
  let ?z = "Tensor [80, 5] (replicate 400 0) :: real tensor"
  have d: "delta_transform stub_transform (log_mels ?m) = Inr ?z"
    by (simp add: stub_delta log_mels_def)
  have a: "delta_transform stub_transform ?z = Inr ?z"
    by (simp add: stub_delta)
  from forward_result [OF stub_mel_800 _ d _ a]
  obtain es where "StandardAudioTransform_forward stub_transform (Tensor [800] (replicate 800 0))
      = Inr (Tensor [80, 3, 5] es)"
    by auto
  then show ?thesis by simp
qed

theorem forward_stacks_channels_witness:
  "\<exists>out. StandardAudioTransform_forward stub_transform (Tensor [2, 800] (replicate 1600 0)) = Inr out
      \<and> shape out = [2, 3, 80, 5]
      \<and> select_dim1 0 out = Inr (log_mels (Tensor [2, 80, 5] (replicate 800 1)))
      \<and> select_dim1 1 out = Inr (Tensor [2, 80, 5] (replicate 800 0))
      \<and> select_dim1 2 out = Inr (Tensor [2, 80, 5] (replicate 800 0))"
proof -
  let ?m = "Tensor [2, 80, 5] (replicate 800 1) :: real tensor"
  let ?z = "Tensor [2, 80, 5] (replicate 800 0) :: real tensor"
  have d: "delta_transform stub_transform (log_mels ?m) = Inr ?z"
    by (simp add: stub_delta log_mels_def)
  have a: "delta_transform stub_transform ?z = Inr ?z"
    by (simp add: stub_delta)
  have wf: "wf_tensor ?m" "wf_tensor ?z"
    by (simp_all add: wf_tensor_def numel_def)
  show ?thesis
    using forward_stacks_channels [OF stub_mel_batch _ wf(1) d _ wf(2) a _ wf(2)] by simp
qed

text \<open>
  The output of \<^verbatim>\<open>forward\<close> has as many time frames as the spectrogram it wraps returns:
  the deltas keep the shape and the stack adds its axis in front of the mel axis.
\<close>

lemma forward_time_frames:
  assumes mel: "mel_call (spec_transform self) audio = Inr m"
    and sh: "shape m = b # n_mels # rest"
    and d: "delta_transform self (log_mels m) = Inr d" "shape d = shape m"
    and a: "delta_transform self d = Inr a" "shape a = shape m"
  shows "map_sum id (\<lambda>out. last (shape out)) (StandardAudioTransform_forward self audio)
     = Inr (last (shape m))"
proof -
  from forward_result [OF mel sh d a]
  obtain es where "StandardAudioTransform_forward self audio = Inr (Tensor (b # 3 # n_mels # rest) es)"
    by auto
  then show ?thesis using sh by simp
qed

lemma float32_exact_examples:
  "float32 15600 = 15600" "float32 200 = 200" "float32 78 = 78" "float32 79 = 79"
  by (simp_all add: float32_def ilog2_def bit_length.simps pow2_def round_even_def)

lemma compute_lengths_16000:
  "compute_lengths stub_transform (Tensor [1] [16000]) = Tensor [1] [79]"
proof -
  have "long (float32 (float32 (float32 (real_of_int (16000 - 400)) / float32 (real_of_int 200)) + 1)) = 79"
    by (simp add: float32_exact_examples long_def)
  then show ?thesis
    by (simp add: compute_lengths_def stub_transform_def default_mel_def)
qed

lemma stub_mel_16000:
  "mel_call (spec_transform stub_transform) (Tensor [1, 16000] (replicate 16000 0))
     = Inr (Tensor [1, 80, 81] (replicate 6480 1))"
  by (simp add: stub_transform_def default_mel_def constant_mel_def stft_frames_def)

text \<open>
  Claim C3. The claim fails on the default transform (window 400, hop 200, centre
  padding): for 16000 samples \<^verbatim>\<open>compute_lengths\<close> returns 79, the value of
  \<open>\<lfloor>(N - win_length) / hop_length\<rfloor> + 1\<close>, while the output of \<^verbatim>\<open>forward\<close> has the 81
  time frames of the centred spectrogram.
\<close>

theorem compute_lengths_default_frames:
  "compute_lengths stub_transform (Tensor [1] [16000]) = Tensor [1] [79]
   \<and> map_sum id (\<lambda>out. last (shape out))
        (StandardAudioTransform_forward stub_transform (Tensor [1, 16000] (replicate 16000 0)))
      = Inr 81"
proof -
  let ?m = "Tensor [1, 80, 81] (replicate 6480 1) :: real tensor"
  let ?z = "Tensor [1, 80, 81] (replicate 6480 0) :: real tensor"
  have d: "delta_transform stub_transform (log_mels ?m) = Inr ?z"
    by (simp add: stub_delta log_mels_def)
  have a: "delta_transform stub_transform ?z = Inr ?z"
    by (simp add: stub_delta)
  have s: "shape ?m = 1 # 80 # [81]" by simp
  have "map_sum id (\<lambda>out. last (shape out))
        (StandardAudioTransform_forward stub_transform (Tensor [1, 16000] (replicate 16000 0)))
      = Inr 81"
    using forward_time_frames [OF stub_mel_16000 s d _ a] by simp
  with compute_lengths_16000 show ?thesis by simp
qed

text \<open>
  Two more values of \<^verbatim>\<open>compute_lengths\<close> on the default transform. A clip of one sample
  gives 0, where the floor of the quotient plus one is -1. For 13107599 samples the
  quotient 65535.995 is rounded to 65535.99609375 and the sum with one to 65537, where
  the floor of the exact quotient plus one is 65536.
\<close>

lemma compute_lengths_one_sample:
  "compute_lengths stub_transform (Tensor [1] [1]) = Tensor [1] [0]"
proof -
  have c: "float32 (- 399) = - 399" "float32 200 = 200"
    by (simp_all add: float32_def ilog2_def bit_length.simps pow2_def round_even_def)
  have q: "float32 (- (399 / 200)) = - (16735273 / 8388608)"
    by (simp add: float32_def ilog2_def bit_length.simps pow2_def round_even_def)
  have s: "float32 (- (8346665 / 8388608)) = - (8346665 / 8388608)"
    by (simp add: float32_def ilog2_def bit_length.simps pow2_def round_even_def)
  have "float32 (real_of_int (1 - 400)) / float32 (real_of_int 200) = - (399 / 200)"
    by (simp add: c)
  then have "float32 (float32 (real_of_int (1 - 400)) / float32 (real_of_int 200)) + 1
      = - (8346665 / 8388608)"
    by (simp only: q)
  then have "float32 (float32 (float32 (real_of_int (1 - 400)) / float32 (real_of_int 200)) + 1)
      = - (8346665 / 8388608)"
    by (simp only: s)
  then have "long (float32 (float32 (float32 (real_of_int (1 - 400)) / float32 (real_of_int 200)) + 1)) = 0"
    by (simp only: long_def) simp
  then show ?thesis
    by (simp add: compute_lengths_def stub_transform_def default_mel_def)
qed

lemma compute_lengths_rounds:
  "compute_lengths stub_transform (Tensor [1] [13107599]) = Tensor [1] [65537]
   \<and> \<lfloor>real_of_int (13107599 - 400) / real_of_int 200\<rfloor> + 1 = (65536 :: int)"
proof -
  have c: "float32 13107199 = 13107199" "float32 200 = 200"
    by (simp_all add: float32_def ilog2_def bit_length.simps pow2_def round_even_def)
  have q: "float32 (13107199 / 200) = 16777215 / 256"
    by (simp add: float32_def ilog2_def bit_length.simps pow2_def round_even_def)
  have s: "float32 (16777471 / 256) = 65537"
    by (simp add: float32_def ilog2_def bit_length.simps pow2_def round_even_def)
  have "float32 (real_of_int (13107599 - 400)) / float32 (real_of_int 200) = 13107199 / 200"
    by (simp add: c)
  then have "float32 (float32 (real_of_int (13107599 - 400)) / float32 (real_of_int 200)) + 1
      = 16777471 / 256"
    by (simp only: q)
  then have "float32 (float32 (float32 (real_of_int (13107599 - 400)) / float32 (real_of_int 200)) + 1)
      = 65537"
    by (simp only: s)
  then have "long (float32 (float32 (float32 (real_of_int (13107599 - 400)) / float32 (real_of_int 200)) + 1)) = 65537"
    by (simp only: long_def) simp
  then have "compute_lengths stub_transform (Tensor [1] [13107599]) = Tensor [1] [65537]"
    by (simp add: compute_lengths_def stub_transform_def default_mel_def)
  then show ?thesis by simp
qed

end
